theory Spec2Isabelle
  imports Complex_Main "HOL-Library.AList"
begin

section \<open>The gradient button component of \<^verbatim>\<open>src/index.tsx\<close>\<close>

text \<open>
  The repository holds one function component, \<^verbatim>\<open>GradientButton\<close>, which validates its
  props, strips colour keys from \<^verbatim>\<open>textStyle\<close>, partitions \<^verbatim>\<open>style\<close> with the local
  helper \<^verbatim>\<open>splitStyle\<close>, and returns a tree of host elements.

  Scope of the model. A JavaScript value is a term of \<open>jsval\<close>. A plain object is the list
  of its own enumerable string-keyed properties in insertion order; a real object never
  holds a key twice, which is the side condition \<open>distinct (map fst kvs)\<close> wherever a
  theorem reads an object by key. Objects hold data properties and no inherited entries,
  so \<^verbatim>\<open>k in o\<close> is membership among the own keys and, on an object the component has just
  created, \<^verbatim>\<open>o[k] = v\<close> is \<open>AList.update\<close> (an existing key keeps its place, a new key
  goes last). An object of the caller is either ordinary (\<open>JObj\<close>), where \<^verbatim>\<open>delete o[k]\<close>
  is \<open>AList.delete\<close>, or frozen or sealed (\<open>JFrozen\<close>, the result of \<^verbatim>\<open>Object.freeze\<close>), where
  its properties are not configurable: the source file is an ES module, hence strict mode
  code, in which \<^verbatim>\<open>delete\<close> of such a property raises a \<^verbatim>\<open>TypeError\<close>. Accessor properties
  (among them the name \<^verbatim>\<open>__proto__\<close>), proxies and sparse arrays are outside the model.
  Numbers are rationals plus \<^verbatim>\<open>NaN\<close>; functions are opaque handles. Props are passed by
  value and the one in-place write of the component, the \<^verbatim>\<open>delete\<close> on the object given as
  \<^verbatim>\<open>textStyle\<close>, is returned as the prop bag seen by the caller after the call; two
  different props are taken to hold different objects.
\<close>

subsection \<open>Values\<close>

datatype jsval =
    JUndefined
  | JNull
  | JBool bool
  | JNum rat
  | JNaN
  | JStr string
  | JFun nat
  | JArr "jsval list"
  | JObj "(string \<times> jsval) list"
  | JFrozen "(string \<times> jsval) list"

text \<open>The \<^verbatim>\<open>typeof\<close> operator.\<close>

fun typeof :: "jsval \<Rightarrow> string" where
  "typeof JUndefined = ''undefined''"
| "typeof JNull = ''object''"
| "typeof (JBool b) = ''boolean''"
| "typeof (JNum r) = ''number''"
| "typeof JNaN = ''number''"
| "typeof (JStr s) = ''string''"
| "typeof (JFun f) = ''function''"
| "typeof (JArr xs) = ''object''"
| "typeof (JObj kvs) = ''object''"
| "typeof (JFrozen kvs) = ''object''"

text \<open>Conversion to boolean, as done by \<^verbatim>\<open>!v\<close>, \<^verbatim>\<open>v && _\<close>, \<^verbatim>\<open>v || _\<close> and \<^verbatim>\<open>v ? _ : _\<close>.\<close>

fun truthy :: "jsval \<Rightarrow> bool" where
  "truthy JUndefined = False"
| "truthy JNull = False"
| "truthy (JBool b) = b"
| "truthy (JNum r) = (r \<noteq> 0)"
| "truthy JNaN = False"
| "truthy (JStr s) = (s \<noteq> [])"
| "truthy (JFun f) = True"
| "truthy (JArr xs) = True"
| "truthy (JObj kvs) = True"
| "truthy (JFrozen kvs) = True"

text \<open>\<^verbatim>\<open>a || b\<close> yields the left operand when it is truthy and the right one otherwise.\<close>

definition js_or :: "jsval \<Rightarrow> jsval \<Rightarrow> jsval" where
  "js_or a b = (if truthy a then a else b)"

text \<open>\<^verbatim>\<open>Array.isArray\<close>, the elements of an array and \<^verbatim>\<open>Object.entries\<close>.\<close>

fun isArray :: "jsval \<Rightarrow> bool" where
  "isArray (JArr xs) = True"
| "isArray v = False"

fun elements :: "jsval \<Rightarrow> jsval list" where
  "elements (JArr xs) = xs"
| "elements v = []"

fun entries :: "jsval \<Rightarrow> (string \<times> jsval) list" where
  "entries (JObj kvs) = kvs"
| "entries (JFrozen kvs) = kvs"
| "entries v = []"

text \<open>\<^verbatim>\<open>k in o\<close> for an object; an array owns no named style key.\<close>

fun has_key :: "string \<Rightarrow> jsval \<Rightarrow> bool" where
  "has_key k (JObj kvs) = (k \<in> fst ` set kvs)"
| "has_key k (JFrozen kvs) = (k \<in> fst ` set kvs)"
| "has_key k v = False"

text \<open>
  Reading a property of a prop bag: a missing key reads as \<^verbatim>\<open>undefined\<close>, and a default
  in the destructuring pattern replaces exactly \<^verbatim>\<open>undefined\<close>.
\<close>

definition getProp :: "(string \<times> jsval) list \<Rightarrow> string \<Rightarrow> jsval" where
  "getProp ps k = (case map_of ps k of None \<Rightarrow> JUndefined | Some v \<Rightarrow> v)"

definition dflt :: "jsval \<Rightarrow> jsval \<Rightarrow> jsval" where
  "dflt d v = (if v = JUndefined then d else v)"

text \<open>Object spread \<^verbatim>\<open>{...a, ...b}\<close>: the entries of \<open>b\<close> are assigned onto \<open>a\<close> in order.\<close>

definition spread :: "(string \<times> 'v) list \<Rightarrow> (string \<times> 'v) list \<Rightarrow> (string \<times> 'v) list" where
  "spread a b = fold (\<lambda>(k, v). AList.update k v) b a"

subsection \<open>Warnings and errors\<close>

text \<open>
  \<^verbatim>\<open>console.warn\<close> is modelled as a log of warnings in the order they are issued; the two
  message templates of the source are the two constructors, carrying the key. The errors
  are the three that the source throws and the \<^verbatim>\<open>TypeError\<close> of a \<^verbatim>\<open>delete\<close> that the object
  refuses, carrying the key.
\<close>

datatype warning =
    TextStyleNotAllowed string
  | StyleNotAllowed string

datatype error =
    TextRequired
  | ColorsRequired
  | ColorNotString nat
  | CannotDelete string

subsection \<open>\<^verbatim>\<open>splitStyle\<close>\<close>

definition rejectedKeys :: "string list" where
  "rejectedKeys = [''backgroundColor'', ''borderColor'', ''shadowColor'', ''color'']"

definition layoutKeys :: "string list" where
  "layoutKeys =
    [''width'', ''height'', ''margin'', ''marginTop'', ''marginBottom'', ''marginLeft'',
     ''marginRight'', ''marginHorizontal'', ''marginVertical'', ''padding'', ''paddingTop'',
     ''paddingBottom'', ''paddingLeft'', ''paddingRight'', ''paddingHorizontal'',
     ''paddingVertical'']"

record split =
  outerStyle :: "(string \<times> jsval) list"
  innerStyle :: "(string \<times> jsval) list"
  warned :: "warning list"

definition emptySplit :: split where
  "emptySplit = \<lparr>outerStyle = [], innerStyle = [], warned = []\<rparr>"

text \<open>The body of the \<^verbatim>\<open>forEach\<close> callback, for one entry \<^verbatim>\<open>[key, value]\<close>.\<close>

fun splitEntry :: "string \<times> jsval \<Rightarrow> split \<Rightarrow> split" where
  "splitEntry (key, value) s =
    (if key \<in> set rejectedKeys then s\<lparr>warned := warned s @ [StyleNotAllowed key]\<rparr>
     else if key \<in> set layoutKeys then s\<lparr>outerStyle := AList.update key value (outerStyle s)\<rparr>
     else s\<lparr>innerStyle := AList.update key value (innerStyle s)\<rparr>)"

definition splitStyle :: "jsval \<Rightarrow> split" where
  "splitStyle style =
    (if truthy style \<and> typeof style = ''object'' \<and> \<not> isArray style
     then fold splitEntry (entries style) emptySplit
     else emptySplit)"

subsection \<open>Validation of \<^verbatim>\<open>colors\<close> and \<^verbatim>\<open>textStyle\<close>\<close>

text \<open>
  \<^verbatim>\<open>colors.forEach((color, index) => ...)\<close>: the first element that is not a string
  raises, with its index.
\<close>

fun checkColors :: "jsval list \<Rightarrow> nat \<Rightarrow> error option" where
  "checkColors [] index = None"
| "checkColors (color # rest) index =
    (if typeof color \<noteq> ''string'' then Some (ColorNotString index)
     else checkColors rest (Suc index))"

definition restrictedTextProps :: "string list" where
  "restrictedTextProps = [''color'', ''textDecorationColor'', ''textShadowColor'']"

text \<open>
  \<^verbatim>\<open>delete o[k]\<close>, applied to the object that the caller passed: the new content of the
  object, or the \<^verbatim>\<open>TypeError\<close> when the object is frozen and owns the key.
\<close>

fun deleteKey :: "string \<Rightarrow> jsval \<Rightarrow> error + jsval" where
  "deleteKey k (JObj kvs) = Inr (JObj (AList.delete k kvs))"
| "deleteKey k (JFrozen kvs) =
    (if k \<in> fst ` set kvs then Inl (CannotDelete k) else Inr (JFrozen kvs))"
| "deleteKey k v = Inr v"

text \<open>
  The body of the callback of \<^verbatim>\<open>restrictedTextProps.forEach\<close>, and the loop: the state is
  the warning log and the current content of the \<^verbatim>\<open>textStyle\<close> object; the warning is
  logged before the \<^verbatim>\<open>delete\<close>, and an exception ends the loop.
\<close>

fun stripTextProp ::
  "string \<Rightarrow> warning list \<times> jsval \<Rightarrow> warning list \<times> (error + jsval)" where
  "stripTextProp p (w, obj) =
    (if has_key p obj then (w @ [TextStyleNotAllowed p], deleteKey p obj) else (w, Inr obj))"

fun stripTextProps ::
  "string list \<Rightarrow> warning list \<times> jsval \<Rightarrow> warning list \<times> (error + jsval)" where
  "stripTextProps [] (w, obj) = (w, Inr obj)"
| "stripTextProps (p # ps) (w, obj) =
    (case stripTextProp p (w, obj) of
       (w', Inl e) \<Rightarrow> (w', Inl e)
     | (w', Inr obj') \<Rightarrow> stripTextProps ps (w', obj'))"

definition validateTextStyle :: "jsval \<Rightarrow> warning list \<times> (error + jsval)" where
  "validateTextStyle textStyle =
    (if truthy textStyle \<and> typeof textStyle = ''object''
     then stripTextProps restrictedTextProps ([], textStyle)
     else ([], Inr textStyle))"

subsection \<open>The view tree\<close>

text \<open>
  A node of the returned tree is a JavaScript value, a value exported by the host framework
  and referred to by name (\<^verbatim>\<open>StyleSheet.absoluteFill\<close>), or an element: its component and
  its props, where the JSX children are the prop \<^verbatim>\<open>children\<close>. \<open>jsx\<close> builds the props
  from the attributes in source order, a later attribute overriding an earlier one of the
  same name.
\<close>

datatype node =
    Val jsval
  | Ext string
  | Element string "(string \<times> node) list"

definition jsx :: "string \<Rightarrow> (string \<times> node) list \<Rightarrow> node" where
  "jsx component attrs = Element component (spread [] attrs)"

text \<open>The style sheet \<^verbatim>\<open>styles\<close> at the end of the source file.\<close>

definition styles_button :: jsval where
  "styles_button = JObj [(''width'', JStr ''100%'')]"

definition styles_buttonContent :: jsval where
  "styles_buttonContent = JObj [(''width'', JStr ''100%''), (''height'', JStr ''100%'')]"

definition styles_maskContainer :: jsval where
  "styles_maskContainer =
    JObj [(''width'', JStr ''100%''), (''height'', JStr ''100%''),
          (''borderRadius'', JNum 60), (''padding'', JStr ''10%'')]"

definition styles_buttonText :: jsval where
  "styles_buttonText =
    JObj [(''color'', JStr ''#000000''), (''textShadowColor'', JStr ''#000000'')]"

text \<open>
  The names bound by the destructuring pattern of the parameter; \<^verbatim>\<open>...touchableProps\<close>
  collects every other entry of the prop bag.
\<close>

definition destructured :: "string list" where
  "destructured =
    [''text'', ''colors'', ''onPress'', ''style'', ''textStyle'', ''loading'',
     ''loadingColor'', ''loadingSize'', ''start'', ''end'', ''locations'', ''useAngle'',
     ''angle'', ''angleCenter'', ''disabled'', ''activeOpacity'', ''accessibilityRole'',
     ''accessibilityLabel'', ''accessibilityHint'']"

definition touchableProps :: "(string \<times> jsval) list \<Rightarrow> (string \<times> jsval) list" where
  "touchableProps props = filter (\<lambda>(k, v). k \<notin> set destructured) props"

definition point :: "rat \<Rightarrow> rat \<Rightarrow> jsval" where
  "point x y = JObj [(''x'', JNum x), (''y'', JNum y)]"

definition linearGradient :: "(string \<times> jsval) list \<Rightarrow> node" where
  "linearGradient props =
    jsx ''LinearGradient''
      [(''style'', Ext ''StyleSheet.absoluteFill''),
       (''pointerEvents'', Val (JStr ''none'')),
       (''colors'', Val (getProp props ''colors'')),
       (''start'', Val (dflt (point 0 0) (getProp props ''start''))),
       (''end'', Val (dflt (point 1 0) (getProp props ''end''))),
       (''locations'', Val (getProp props ''locations'')),
       (''useAngle'', Val (dflt (JBool False) (getProp props ''useAngle''))),
       (''angle'', Val (dflt (JNum 0) (getProp props ''angle''))),
       (''angleCenter'', Val (getProp props ''angleCenter''))]"

text \<open>
  The content of the mask, \<^verbatim>\<open>loading ? <ActivityIndicator/> : <Text/>\<close>; \<open>textStyle\<close> is
  the \<^verbatim>\<open>textStyle\<close> object as the validation left it.
\<close>

definition maskContent :: "(string \<times> jsval) list \<Rightarrow> jsval \<Rightarrow> node" where
  "maskContent props textStyle =
    (if truthy (dflt (JBool False) (getProp props ''loading''))
     then jsx ''ActivityIndicator''
       [(''color'', Val (dflt (JStr ''#FFFFFF'') (getProp props ''loadingColor''))),
        (''size'', Val (dflt (JStr ''small'') (getProp props ''loadingSize'')))]
     else jsx ''Text''
       [(''style'', Val (JArr [styles_buttonText, textStyle])),
        (''children'', Val (getProp props ''text''))])"

definition maskElement :: "(string \<times> jsval) list \<Rightarrow> jsval \<Rightarrow> split \<Rightarrow> node" where
  "maskElement props textStyle sp =
    jsx ''View''
      [(''pointerEvents'', Val (JStr ''none'')),
       (''style'', Val (JArr [styles_maskContainer, JObj (innerStyle sp)])),
       (''collapsable'', Val (JBool False)),
       (''children'', maskContent props textStyle)]"

definition maskedView :: "(string \<times> jsval) list \<Rightarrow> jsval \<Rightarrow> split \<Rightarrow> node" where
  "maskedView props textStyle sp =
    jsx ''MaskedView''
      [(''maskElement'', maskElement props textStyle sp),
       (''style'', Ext ''StyleSheet.absoluteFill''),
       (''pointerEvents'', Val (JStr ''none'')),
       (''children'', linearGradient props)]"

definition touchableOpacity :: "(string \<times> jsval) list \<Rightarrow> jsval \<Rightarrow> split \<Rightarrow> node" where
  "touchableOpacity props textStyle sp =
    jsx ''TouchableOpacity''
      ([(''onPress'', Val (getProp props ''onPress'')),
        (''disabled'', Val (js_or (dflt (JBool False) (getProp props ''disabled''))
                                  (dflt (JBool False) (getProp props ''loading'')))),
        (''activeOpacity'', Val (dflt (JNum (7 / 10)) (getProp props ''activeOpacity''))),
        (''accessibilityRole'',
           Val (dflt (JStr ''button'') (getProp props ''accessibilityRole''))),
        (''accessibilityLabel'',
           Val (js_or (getProp props ''accessibilityLabel'') (getProp props ''text''))),
        (''accessibilityHint'', Val (getProp props ''accessibilityHint''))]
       @ map (\<lambda>(k, v). (k, Val v)) (touchableProps props)
       @ [(''style'', Val styles_button),
          (''children'',
             jsx ''View''
               [(''style'', Val styles_buttonContent),
                (''children'', maskedView props textStyle sp)])])"

text \<open>The \<^verbatim>\<open>return\<close> statement of the component.\<close>

definition render :: "(string \<times> jsval) list \<Rightarrow> jsval \<Rightarrow> split \<Rightarrow> node" where
  "render props textStyle sp =
    jsx ''View''
      [(''style'', Val (JObj (outerStyle sp))),
       (''children'', touchableOpacity props textStyle sp)]"

subsection \<open>\<^verbatim>\<open>GradientButton\<close>\<close>

text \<open>
  One call of the component: the exception raised or the tree returned, the warnings
  logged, and the prop bag as the caller finds it afterwards. The three errors that the
  source throws leave the component before the \<^verbatim>\<open>textStyle\<close> block, so nothing is logged
  or written then; a \<^verbatim>\<open>delete\<close> that raises has written nothing either, but its warning
  is logged.
\<close>

record outcome =
  result :: "error + node"
  warnings :: "warning list"
  propsAfter :: "(string \<times> jsval) list"

definition raise :: "error \<Rightarrow> warning list \<Rightarrow> (string \<times> jsval) list \<Rightarrow> outcome" where
  "raise e w props = \<lparr>result = Inl e, warnings = w, propsAfter = props\<rparr>"

definition GradientButton :: "(string \<times> jsval) list \<Rightarrow> outcome" where
  "GradientButton props =
    (let text = getProp props ''text'';
         colors = getProp props ''colors'';
         style = getProp props ''style'';
         textStyle = getProp props ''textStyle''
     in if \<not> truthy text then raise TextRequired [] props
        else if \<not> truthy colors \<or> \<not> isArray colors \<or> length (elements colors) < 2
          then raise ColorsRequired [] props
        else case checkColors (elements colors) 0 of
          Some e \<Rightarrow> raise e [] props
        | None \<Rightarrow>
            (case validateTextStyle textStyle of
               (w, Inl e) \<Rightarrow> raise e w props
             | (w, Inr textStyle') \<Rightarrow>
                 (let sp = splitStyle style
                  in \<lparr>result = Inr (render props textStyle' sp),
                      warnings = w @ warned sp,
                      propsAfter =
                        AList.map_entry ''textStyle'' (\<lambda>_. textStyle') props\<rparr>)))"

subsection \<open>Reading a tree and a style\<close>

text \<open>The component of an element and one of its props.\<close>

fun component :: "node \<Rightarrow> string option" where
  "component (Element c ps) = Some c"
| "component n = None"

fun attr :: "node \<Rightarrow> string \<Rightarrow> node option" where
  "attr (Element c ps) k = map_of ps k"
| "attr n k = None"

text \<open>
  The host framework resolves a style given as an array by merging its entries from left
  to right, a later entry overriding an earlier one of the same key, and nested arrays the
  same way; values that are not objects contribute nothing. This is \<^verbatim>\<open>flattenStyle\<close> of
  the framework, not code of this repository; it is used only to read off the effective
  style of the \<^verbatim>\<open>Text\<close> element.
\<close>

fun flattenStyle :: "jsval \<Rightarrow> (string \<times> jsval) list" where
  "flattenStyle (JObj kvs) = kvs"
| "flattenStyle (JFrozen kvs) = kvs"
| "flattenStyle (JArr xs) = fold (\<lambda>x acc. spread acc (flattenStyle x)) xs []"
| "flattenStyle v = []"

text \<open>
  Following a path of prop names down from a node, and the component found at its end.
  \<open>maskPath\<close> leads from the returned tree to the \<^verbatim>\<open>maskElement\<close> of the masked view,
  \<open>gradientPath\<close> to the child of the masked view.
\<close>

fun descend :: "node \<Rightarrow> string list \<Rightarrow> node option" where
  "descend n [] = Some n"
| "descend n (k # ks) = (case attr n k of None \<Rightarrow> None | Some m \<Rightarrow> descend m ks)"

definition componentAt :: "node \<Rightarrow> string list \<Rightarrow> string option" where
  "componentAt n path = (case descend n path of None \<Rightarrow> None | Some m \<Rightarrow> component m)"

definition maskPath :: "string list" where
  "maskPath = [''children'', ''children'', ''children'', ''maskElement'']"

definition gradientPath :: "string list" where
  "gradientPath = [''children'', ''children'', ''children'', ''children'']"

subsection \<open>Sample inputs\<close>

text \<open>Concrete style objects and prop bags on which the theorems below are exercised.\<close>

definition sampleStyle :: "(string \<times> jsval) list" where
  "sampleStyle =
    [(''width'', JNum 10), (''color'', JStr ''red''), (''borderRadius'', JNum 8),
     (''marginTop'', JNum 4)]"

definition sizeStyle :: "(string \<times> jsval) list" where
  "sizeStyle = [(''width'', JNum 10), (''flex'', JNum 1)]"

definition paintStyle :: "(string \<times> jsval) list" where
  "paintStyle =
    [(''height'', JNum 5), (''backgroundColor'', JStr ''red''), (''opacity'', JNum (1 / 2))]"

definition sampleProps :: "(string \<times> jsval) list" where
  "sampleProps =
    [(''text'', JStr ''Hi''),
     (''colors'', JArr [JStr ''red'', JStr ''blue'']),
     (''textStyle'', JObj [(''color'', JStr ''red''), (''fontSize'', JNum 18)]),
     (''style'', JObj sampleStyle),
     (''testID'', JStr ''b'')]"

definition sampleSplit :: split where
  "sampleSplit =
    \<lparr>outerStyle = [(''width'', JNum 10), (''marginTop'', JNum 4)],
     innerStyle = [(''borderRadius'', JNum 8)],
     warned = [StyleNotAllowed ''color'']\<rparr>"

definition loadingProps :: "(string \<times> jsval) list" where
  "loadingProps =
    [(''text'', JStr ''Hi''),
     (''colors'', JArr [JStr ''red'', JStr ''blue'']),
     (''loading'', JBool True),
     (''disabled'', JBool False),
     (''style'', JArr [JObj sampleStyle])]"

definition badProps :: "(string \<times> jsval) list" where
  "badProps =
    [(''text'', JStr ''Hi''),
     (''colors'', JArr [JStr ''red'', JNum 1]),
     (''textStyle'', JObj [(''color'', JStr ''red'')])]"

definition frozenProps :: "(string \<times> jsval) list" where
  "frozenProps =
    [(''text'', JStr ''Hi''),
     (''colors'', JArr [JStr ''red'', JStr ''blue'']),
     (''textStyle'', JFrozen [(''color'', JStr ''red''), (''fontSize'', JNum 18)])]"

section \<open>Properties\<close>

subsection \<open>The loop of \<^verbatim>\<open>splitStyle\<close>\<close>

lemma outer_fold:
  "distinct (map fst kvs) \<Longrightarrow>
   map_of (outerStyle (fold splitEntry kvs s)) k =
     (if k \<in> fst ` set kvs \<and> k \<notin> set rejectedKeys \<and> k \<in> set layoutKeys
      then map_of kvs k else map_of (outerStyle s) k)"
proof (induction kvs arbitrary: s)
  case Nil
  then show ?case by simp
next
  case (Cons p kvs)
  obtain key v where p: "p = (key, v)" by (cases p)
  from Cons.prems have d: "distinct (map fst kvs)" and nk: "key \<notin> fst ` set kvs"
    by (auto simp: p)
  have nk': "map_of kvs key = None" using nk by (simp add: map_of_eq_None_iff)
  show ?case
    using Cons.IH [OF d, of "splitEntry (key, v) s"] nk nk'
    by (auto simp: p AList.update_conv')
qed

lemma inner_fold:
  "distinct (map fst kvs) \<Longrightarrow>
   map_of (innerStyle (fold splitEntry kvs s)) k =
     (if k \<in> fst ` set kvs \<and> k \<notin> set rejectedKeys \<and> k \<notin> set layoutKeys
      then map_of kvs k else map_of (innerStyle s) k)"
proof (induction kvs arbitrary: s)
  case Nil
  then show ?case by simp
next
  case (Cons p kvs)
  obtain key v where p: "p = (key, v)" by (cases p)
  from Cons.prems have d: "distinct (map fst kvs)" and nk: "key \<notin> fst ` set kvs"
    by (auto simp: p)
  have nk': "map_of kvs key = None" using nk by (simp add: map_of_eq_None_iff)
  show ?case
    using Cons.IH [OF d, of "splitEntry (key, v) s"] nk nk'
    by (auto simp: p AList.update_conv')
qed

lemma splitStyle_plain:
  "truthy style \<Longrightarrow> typeof style = ''object'' \<Longrightarrow> \<not> isArray style \<Longrightarrow>
   splitStyle style = fold splitEntry (entries style) emptySplit"
  by (simp add: splitStyle_def)

lemma layout_not_rejected: "k \<in> set layoutKeys \<Longrightarrow> k \<notin> set rejectedKeys"
  by (auto simp: layoutKeys_def rejectedKeys_def)

lemma outer_plain:
  assumes p: "truthy style" "typeof style = ''object''" "\<not> isArray style"
    and d: "distinct (map fst (entries style))"
  shows "map_of (outerStyle (splitStyle style)) k =
     (if k \<in> set layoutKeys then map_of (entries style) k else None)"
proof -
  have none: "k \<notin> fst ` set (entries style) \<Longrightarrow> map_of (entries style) k = None"
    by (simp add: map_of_eq_None_iff)
  show ?thesis
    using outer_fold [OF d, of emptySplit k] layout_not_rejected [of k] none
    by (auto simp: splitStyle_plain [OF p] emptySplit_def)
qed

lemma inner_plain:
  assumes p: "truthy style" "typeof style = ''object''" "\<not> isArray style"
    and d: "distinct (map fst (entries style))"
  shows "map_of (innerStyle (splitStyle style)) k =
     (if k \<notin> set rejectedKeys \<and> k \<notin> set layoutKeys then map_of (entries style) k
      else None)"
proof -
  have none: "k \<notin> fst ` set (entries style) \<Longrightarrow> map_of (entries style) k = None"
    by (simp add: map_of_eq_None_iff)
  show ?thesis
    using inner_fold [OF d, of emptySplit k] none
    by (auto simp: splitStyle_plain [OF p] emptySplit_def)
qed

lemma keys_dom: "fst ` set xs = dom (map_of xs)"
  by (simp add: dom_map_of_conv_image_fst)

subsection \<open>Object spread\<close>

lemma map_of_spread: "map_of (spread a b) = map_of a ++ map_of (rev b)"
proof (induction b arbitrary: a)
  case Nil
  then show ?case by (simp add: spread_def)
next
  case (Cons p b)
  obtain k v where p: "p = (k, v)" by (cases p)
  have "spread a (p # b) = spread (AList.update k v a) b"
    by (simp add: spread_def p)
  then have "map_of (spread a (p # b)) = map_of (AList.update k v a) ++ map_of (rev b)"
    by (simp only: Cons.IH)
  also have "\<dots> = (map_of a)(k \<mapsto> v) ++ map_of (rev b)"
    by (simp only: AList.update_conv')
  also have "\<dots> = map_of a ++ map_of (rev (p # b))"
    by (auto simp: p fun_eq_iff map_add_def split: option.splits)
  finally show ?case .
qed

lemma distinct_spread: "distinct (map fst a) \<Longrightarrow> distinct (map fst (spread a b))"
proof (induction b arbitrary: a)
  case Nil
  then show ?case by (simp add: spread_def)
next
  case (Cons p b)
  obtain k v where p: "p = (k, v)" by (cases p)
  have s: "spread a (p # b) = spread (AList.update k v a) b"
    by (simp add: spread_def p)
  show ?case
    unfolding s using Cons.prems by (intro Cons.IH AList.distinct_update)
qed

lemma map_of_rev_distinct: "distinct (map fst b) \<Longrightarrow> map_of (rev b) = map_of b"
  by (subst map_of_inject_set) (simp_all add: rev_map [symmetric])

lemma spread_disjoint:
  "distinct (map fst b) \<Longrightarrow> fst ` set a \<inter> fst ` set b = {} \<Longrightarrow> spread a b = a @ b"
proof (induction b arbitrary: a)
  case Nil
  then show ?case by (simp add: spread_def)
next
  case (Cons p b)
  obtain k v where p: "p = (k, v)" by (cases p)
  have s: "spread a (p # b) = spread (AList.update k v a) b"
    by (simp add: spread_def p)
  have u: "AList.update k v a = a @ [(k, v)]"
    using Cons.prems(2) by (induction a) (auto simp: p)
  show ?case unfolding s u using Cons.prems by (subst Cons.IH) (auto simp: p)
qed

subsection \<open>Validation\<close>

lemma checkColors_None:
  "checkColors xs i = None \<longleftrightarrow> (\<forall>c \<in> set xs. typeof c = ''string'')"
  by (induction xs arbitrary: i) auto

lemma isArray_truthy: "isArray v \<Longrightarrow> truthy v"
  by (cases v) simp_all

lemma has_key_entries: "has_key k v \<longleftrightarrow> k \<in> fst ` set (entries v)"
  by (cases v) simp_all

lemma keys_delete: "fst ` set (AList.delete k kvs) = fst ` set kvs - {k}"
  by (auto simp: AList.delete_eq image_iff)

lemma delete_restricted:
  "AList.delete ''textShadowColor''
     (AList.delete ''textDecorationColor'' (AList.delete ''color'' kvs)) =
   filter (\<lambda>(k, v). k \<notin> set restrictedTextProps) kvs"
  by (auto simp: AList.delete_eq restrictedTextProps_def intro: filter_cong)

lemma stripTextProp_obj:
  "stripTextProp p (w, JObj kvs) =
    (w @ (if p \<in> fst ` set kvs then [TextStyleNotAllowed p] else []),
     Inr (JObj (AList.delete p kvs)))"
  by simp

lemma validateTextStyle_obj:
  "validateTextStyle (JObj kvs) =
    (map TextStyleNotAllowed (filter (\<lambda>p. p \<in> fst ` set kvs) restrictedTextProps),
     Inr (JObj (filter (\<lambda>(k, v). k \<notin> set restrictedTextProps) kvs)))"
proof -
  have "validateTextStyle (JObj kvs) =
      (map TextStyleNotAllowed (filter (\<lambda>p. p \<in> fst ` set kvs) restrictedTextProps),
       Inr (JObj (AList.delete ''textShadowColor''
         (AList.delete ''textDecorationColor'' (AList.delete ''color'' kvs)))))"
    unfolding validateTextStyle_def restrictedTextProps_def
    by (simp only: stripTextProps.simps stripTextProp_obj keys_delete truthy.simps
          typeof.simps simp_thms if_True prod.case sum.case)
       auto
  then show ?thesis
    by (simp only: delete_restricted)
qed

lemma validateTextStyle_frozen_ok:
  assumes "\<forall>p \<in> set restrictedTextProps. p \<notin> fst ` set kvs"
  shows "validateTextStyle (JFrozen kvs) = ([], Inr (JFrozen kvs))"
  using assms by (simp add: validateTextStyle_def restrictedTextProps_def)

lemma validateTextStyle_frozen_bad:
  assumes "p \<in> set restrictedTextProps" "p \<in> fst ` set kvs"
  shows "\<exists>q \<in> set restrictedTextProps.
           validateTextStyle (JFrozen kvs) = ([TextStyleNotAllowed q], Inl (CannotDelete q))"
proof (cases "''color'' \<in> fst ` set kvs")
  case True
  then have "validateTextStyle (JFrozen kvs) =
      ([TextStyleNotAllowed ''color''], Inl (CannotDelete ''color''))"
    by (simp add: validateTextStyle_def restrictedTextProps_def)
  then show ?thesis by (simp add: restrictedTextProps_def)
next
  case c: False
  show ?thesis
  proof (cases "''textDecorationColor'' \<in> fst ` set kvs")
    case True
    with c have "validateTextStyle (JFrozen kvs) =
        ([TextStyleNotAllowed ''textDecorationColor''],
         Inl (CannotDelete ''textDecorationColor''))"
      by (simp add: validateTextStyle_def restrictedTextProps_def)
    then show ?thesis by (simp add: restrictedTextProps_def)
  next
    case d: False
    from assms(1) have "p = ''color'' \<or> p = ''textDecorationColor'' \<or> p = ''textShadowColor''"
      by (simp add: restrictedTextProps_def)
    then have "''textShadowColor'' \<in> fst ` set kvs"
      using assms(2) c d by (elim disjE) simp_all
    with c d have "validateTextStyle (JFrozen kvs) =
        ([TextStyleNotAllowed ''textShadowColor''], Inl (CannotDelete ''textShadowColor''))"
      by (simp add: validateTextStyle_def restrictedTextProps_def)
    then show ?thesis by (simp add: restrictedTextProps_def)
  qed
qed

lemma validateTextStyle_other:
  assumes "\<forall>kvs. v \<noteq> JObj kvs" "\<forall>kvs. v \<noteq> JFrozen kvs"
  shows "validateTextStyle v = ([], Inr v)"
  using assms by (cases v) (simp_all add: validateTextStyle_def restrictedTextProps_def)

lemma validateTextStyle_raises:
  "isl (snd (validateTextStyle v)) \<longleftrightarrow>
     (\<exists>kvs. v = JFrozen kvs \<and> (\<exists>p \<in> set restrictedTextProps. p \<in> fst ` set kvs))"
proof (cases v)
  case (JObj kvs)
  then show ?thesis by (simp add: validateTextStyle_obj)
next
  case (JFrozen kvs)
  show ?thesis
  proof (cases "\<exists>p \<in> set restrictedTextProps. p \<in> fst ` set kvs")
    case True
    then obtain p where "p \<in> set restrictedTextProps" "p \<in> fst ` set kvs" by blast
    from validateTextStyle_frozen_bad [OF this] True show ?thesis
      by (auto simp: JFrozen)
  next
    case False
    then have "validateTextStyle (JFrozen kvs) = ([], Inr (JFrozen kvs))"
      by (intro validateTextStyle_frozen_ok) blast
    with False show ?thesis by (simp add: JFrozen)
  qed
qed (simp_all add: validateTextStyle_other)

text \<open>What a validation that returns has done to the object.\<close>

lemma validateTextStyle_Inr:
  assumes "snd (validateTextStyle v) = Inr v'"
  shows "entries v' = filter (\<lambda>(k, x). k \<notin> set restrictedTextProps) (entries v)"
    and "fst (validateTextStyle v) =
           map TextStyleNotAllowed (filter (\<lambda>p. has_key p v) restrictedTextProps)"
    and "typeof v' = typeof v" and "truthy v' = truthy v" and "isArray v' = isArray v"
    and "(\<forall>kvs. v \<noteq> JObj kvs) \<Longrightarrow> v' = v"
    and "validateTextStyle v' = ([], Inr v')"
proof -
  have all: "entries v' = filter (\<lambda>(k, x). k \<notin> set restrictedTextProps) (entries v) \<and>
      fst (validateTextStyle v) =
           map TextStyleNotAllowed (filter (\<lambda>p. has_key p v) restrictedTextProps) \<and>
      typeof v' = typeof v \<and> truthy v' = truthy v \<and> isArray v' = isArray v \<and>
      ((\<forall>kvs. v \<noteq> JObj kvs) \<longrightarrow> v' = v) \<and>
      validateTextStyle v' = ([], Inr v')"
  proof (cases "(\<exists>kvs. v = JObj kvs) \<or> (\<exists>kvs. v = JFrozen kvs)")
    case True
    then consider (JObj) kvs where "v = JObj kvs" | (JFrozen) kvs where "v = JFrozen kvs"
      by blast
    then show ?thesis
    proof cases
    case (JObj kvs)
    with assms have v': "v' = JObj (filter (\<lambda>(k, v). k \<notin> set restrictedTextProps) kvs)"
      by (simp add: validateTextStyle_obj)
    have g: "filter (\<lambda>p. p \<in> fst ` {x \<in> set kvs. fst x \<notin> set restrictedTextProps})
        restrictedTextProps = []"
      by (auto simp: filter_empty_conv)
    show ?thesis
      by (simp add: JObj v' validateTextStyle_obj split_def g)
  next
    case (JFrozen kvs)
    from assms have "\<not> isl (snd (validateTextStyle v))" by simp
    then have none: "\<forall>p \<in> set restrictedTextProps. p \<notin> fst ` set kvs"
      unfolding validateTextStyle_raises by (simp add: JFrozen)
    note ok = validateTextStyle_frozen_ok [OF none]
    with assms have v': "v' = JFrozen kvs" by (simp add: JFrozen)
    have f: "filter (\<lambda>(k, x). k \<notin> set restrictedTextProps) kvs = kvs"
      using none by (auto simp: filter_id_conv)
    have g: "filter (\<lambda>p. p \<in> fst ` set kvs) restrictedTextProps = []"
      using none by (auto simp: filter_empty_conv)
    show ?thesis
      by (simp add: JFrozen v' ok f g)
    qed
  next
    case other: False
    then have o: "\<forall>kvs. v \<noteq> JObj kvs" "\<forall>kvs. v \<noteq> JFrozen kvs"
      by simp_all
    note ok = validateTextStyle_other [OF o]
    with assms have v': "v' = v" by simp
    have e: "entries v = []" and h: "\<And>p. \<not> has_key p v"
      using o by (cases v; simp)+
    show ?thesis
      by (simp add: v' ok e h)
  qed
  then show "entries v' = filter (\<lambda>(k, x). k \<notin> set restrictedTextProps) (entries v)"
    and "fst (validateTextStyle v) =
           map TextStyleNotAllowed (filter (\<lambda>p. has_key p v) restrictedTextProps)"
    and "typeof v' = typeof v" and "truthy v' = truthy v" and "isArray v' = isArray v"
    and "(\<forall>kvs. v \<noteq> JObj kvs) \<Longrightarrow> v' = v"
    and "validateTextStyle v' = ([], Inr v')"
    by blast+
qed

lemma validateTextStyle_no_key:
  assumes "\<forall>p \<in> set restrictedTextProps. \<not> has_key p v"
  shows "validateTextStyle v = ([], Inr v)"
proof (cases v)
  case (JObj kvs)
  have f: "filter (\<lambda>(k, x). k \<notin> set restrictedTextProps) kvs = kvs"
    using assms by (auto simp: JObj filter_id_conv)
  have g: "filter (\<lambda>p. p \<in> fst ` set kvs) restrictedTextProps = []"
    using assms by (auto simp: JObj filter_empty_conv)
  show ?thesis by (simp add: JObj validateTextStyle_obj f g)
next
  case (JFrozen kvs)
  show ?thesis
    unfolding JFrozen using assms by (intro validateTextStyle_frozen_ok) (simp add: JFrozen)
qed (simp_all add: validateTextStyle_other)

lemma validateTextStyle_warnings:
  "set (fst (validateTextStyle v)) \<subseteq> TextStyleNotAllowed ` set restrictedTextProps"
proof (cases "snd (validateTextStyle v)")
  case (Inl e)
  then have "isl (snd (validateTextStyle v))" by simp
  then obtain kvs p where v: "v = JFrozen kvs"
    and p: "p \<in> set restrictedTextProps" "p \<in> fst ` set kvs"
    unfolding validateTextStyle_raises by blast
  from validateTextStyle_frozen_bad [OF p] show ?thesis
    by (auto simp: v)
next
  case (Inr v')
  show ?thesis
    unfolding validateTextStyle_Inr(2) [OF Inr] by auto
qed

subsection \<open>The outcome of a call\<close>

lemma GradientButton_result:
  "result (GradientButton props) =
    (if \<not> truthy (getProp props ''text'') then Inl TextRequired
     else if \<not> truthy (getProp props ''colors'') \<or> \<not> isArray (getProp props ''colors'')
          \<or> length (elements (getProp props ''colors'')) < 2 then Inl ColorsRequired
     else case checkColors (elements (getProp props ''colors'')) 0 of
       Some e \<Rightarrow> Inl e
     | None \<Rightarrow>
         (case snd (validateTextStyle (getProp props ''textStyle'')) of
            Inl e \<Rightarrow> Inl e
          | Inr ts \<Rightarrow> Inr (render props ts (splitStyle (getProp props ''style'')))))"
  by (simp add: GradientButton_def Let_def raise_def split: option.splits prod.splits sum.splits)

lemma GradientButton_tree:
  assumes "result (GradientButton props) = Inr t"
  obtains ts where "snd (validateTextStyle (getProp props ''textStyle'')) = Inr ts"
    and "t = render props ts (splitStyle (getProp props ''style''))"
  using assms
  by (auto simp: GradientButton_result split: if_splits option.splits sum.splits)

lemma GradientButton_valid:
  "result (GradientButton props) = Inr t \<Longrightarrow> truthy (getProp props ''text'')"
  by (auto simp: GradientButton_result split: if_splits option.splits)

lemma GradientButton_warnings:
  "result (GradientButton props) = Inr t \<Longrightarrow>
   warnings (GradientButton props) =
     fst (validateTextStyle (getProp props ''textStyle'')) @
     warned (splitStyle (getProp props ''style''))"
  by (auto simp: GradientButton_def Let_def raise_def
      split: if_splits option.splits prod.splits sum.splits)

subsection \<open>What the caller's prop bag holds after a call\<close>

lemma getProp_map_entry:
  "getProp (AList.map_entry k f ps) k' =
    (if k' = k then (case map_of ps k of None \<Rightarrow> JUndefined | Some v \<Rightarrow> f v)
     else getProp ps k')"
  by (simp add: getProp_def AList.map_of_map_entry split: option.splits)

lemma keys_map_entry: "map fst (AList.map_entry k f ps) = map fst ps"
  by (induction ps) auto

lemma map_entry_id:
  "(\<And>v. map_of ps k = Some v \<Longrightarrow> f v = v) \<Longrightarrow> AList.map_entry k f ps = ps"
  by (induction ps) (auto split: if_splits)

lemma touchableProps_map_entry:
  "k \<in> set destructured \<Longrightarrow> touchableProps (AList.map_entry k f ps) = touchableProps ps"
  by (induction ps) (auto simp: touchableProps_def)

lemma GradientButton_propsAfter_raise:
  "isl (result (GradientButton props)) \<Longrightarrow> propsAfter (GradientButton props) = props"
  by (auto simp: GradientButton_def Let_def raise_def
      split: if_splits option.splits prod.splits sum.splits)

lemma GradientButton_propsAfter:
  assumes "snd (validateTextStyle (getProp props ''textStyle'')) = Inr ts"
    and "\<not> isl (result (GradientButton props))"
  shows "propsAfter (GradientButton props) = AList.map_entry ''textStyle'' (\<lambda>_. ts) props"
  using assms
  by (auto simp: GradientButton_def Let_def raise_def
      split: if_splits option.splits prod.splits sum.splits)

lemma getProp_propsAfter_textStyle:
  assumes v: "snd (validateTextStyle (getProp props ''textStyle'')) = Inr ts"
    and ok: "\<not> isl (result (GradientButton props))"
  shows "getProp (propsAfter (GradientButton props)) ''textStyle'' = ts"
proof (cases "map_of props ''textStyle''")
  case None
  then have u: "getProp props ''textStyle'' = JUndefined"
    by (simp add: getProp_def)
  have "validateTextStyle JUndefined = ([], Inr JUndefined)"
    by (simp add: validateTextStyle_def)
  with v u have "ts = JUndefined" by simp
  then show ?thesis
    using None by (simp add: GradientButton_propsAfter [OF v ok] getProp_map_entry)
next
  case (Some x)
  then show ?thesis
    by (simp add: GradientButton_propsAfter [OF v ok] getProp_map_entry)
qed

lemma getProp_propsAfter_other:
  "k \<noteq> ''textStyle'' \<Longrightarrow> getProp (propsAfter (GradientButton props)) k = getProp props k"
proof (cases "isl (result (GradientButton props))")
  case True
  then show ?thesis by (simp add: GradientButton_propsAfter_raise)
next
  case False
  assume k: "k \<noteq> ''textStyle''"
  from False obtain t where "result (GradientButton props) = Inr t"
    by (cases "result (GradientButton props)") simp_all
  then obtain ts where "snd (validateTextStyle (getProp props ''textStyle'')) = Inr ts"
    by (rule GradientButton_tree)
  from GradientButton_propsAfter [OF this False] k show ?thesis
    by (simp add: getProp_map_entry)
qed

lemma keys_propsAfter: "map fst (propsAfter (GradientButton props)) = map fst props"
proof (cases "isl (result (GradientButton props))")
  case True
  then show ?thesis by (simp add: GradientButton_propsAfter_raise)
next
  case False
  from False obtain t where "result (GradientButton props) = Inr t"
    by (cases "result (GradientButton props)") simp_all
  then obtain ts where "snd (validateTextStyle (getProp props ''textStyle'')) = Inr ts"
    by (rule GradientButton_tree)
  from GradientButton_propsAfter [OF this False] show ?thesis
    by (simp add: keys_map_entry)
qed

lemma touchableProps_propsAfter:
  "touchableProps (propsAfter (GradientButton props)) = touchableProps props"
proof (cases "isl (result (GradientButton props))")
  case True
  then show ?thesis by (simp add: GradientButton_propsAfter_raise)
next
  case False
  from False obtain t where "result (GradientButton props) = Inr t"
    by (cases "result (GradientButton props)") simp_all
  then obtain ts where "snd (validateTextStyle (getProp props ''textStyle'')) = Inr ts"
    by (rule GradientButton_tree)
  from GradientButton_propsAfter [OF this False] show ?thesis
    by (simp add: touchableProps_map_entry destructured_def)
qed

lemma propsAfter_unchanged:
  assumes "snd (validateTextStyle (getProp props ''textStyle'')) = Inr (getProp props ''textStyle'')"
  shows "propsAfter (GradientButton props) = props"
proof (cases "isl (result (GradientButton props))")
  case True
  then show ?thesis by (rule GradientButton_propsAfter_raise)
next
  case False
  have "AList.map_entry ''textStyle'' (\<lambda>_. getProp props ''textStyle'') props = props"
    by (rule map_entry_id) (simp add: getProp_def)
  then show ?thesis
    by (simp add: GradientButton_propsAfter [OF assms False])
qed

subsection \<open>Reading the returned tree\<close>

lemma attr_jsx: "attr (jsx c attrs) k = map_of (rev attrs) k"
  by (simp add: jsx_def map_of_spread)

lemma component_jsx: "component (jsx c attrs) = Some c"
  by (simp add: jsx_def)

lemma touchableProps_key:
  "k \<in> set destructured \<Longrightarrow>
   map_of (rev (map (\<lambda>(k, v). (k, Val v)) (touchableProps props))) k = None"
  by (auto simp: map_of_eq_None_iff touchableProps_def image_iff)

lemma attr_touchable_disabled:
  "attr (touchableOpacity props ts sp) ''disabled'' =
     Some (Val (js_or (dflt (JBool False) (getProp props ''disabled''))
                      (dflt (JBool False) (getProp props ''loading''))))"
proof -
  have k: "''disabled'' \<in> set destructured" by (simp add: destructured_def)
  show ?thesis
    unfolding touchableOpacity_def attr_jsx
    by (simp add: map_add_def touchableProps_key [OF k])
qed

lemma attr_touchable_label:
  "attr (touchableOpacity props ts sp) ''accessibilityLabel'' =
     Some (Val (js_or (getProp props ''accessibilityLabel'') (getProp props ''text'')))"
proof -
  have k: "''accessibilityLabel'' \<in> set destructured" by (simp add: destructured_def)
  show ?thesis
    unfolding touchableOpacity_def attr_jsx
    by (simp add: map_add_def touchableProps_key [OF k])
qed

lemma attr_touchable_children:
  "attr (touchableOpacity props ts sp) ''children'' =
     Some (jsx ''View''
               [(''style'', Val styles_buttonContent),
                (''children'', maskedView props ts sp)])"
  unfolding touchableOpacity_def attr_jsx
  by (simp add: map_add_def)

lemma component_touchable: "component (touchableOpacity props ts sp) = Some ''TouchableOpacity''"
  by (simp add: touchableOpacity_def component_jsx)

lemma attr_render_children:
  "attr (render props ts sp) ''children'' = Some (touchableOpacity props ts sp)"
  by (simp add: render_def attr_jsx)

lemma truthy_dflt_False: "truthy (dflt (JBool False) v) = truthy v"
  by (cases v) (simp_all add: dflt_def)

lemma descend_append:
  "descend n (p @ q) = (case descend n p of None \<Rightarrow> None | Some m \<Rightarrow> descend m q)"
  by (induction p arbitrary: n) (auto split: option.splits)

lemma descend_maskedView:
  "descend (render props ts sp) [''children'', ''children'', ''children''] =
     Some (maskedView props ts sp)"
  by (simp add: attr_render_children attr_touchable_children attr_jsx)

lemma descend_mask:
  "descend (render props ts sp) maskPath = Some (maskElement props ts sp)"
  by (simp add: maskPath_def attr_render_children attr_touchable_children attr_jsx
      maskedView_def)

lemma descend_gradient:
  "descend (render props ts sp) gradientPath = Some (linearGradient props)"
  by (simp add: gradientPath_def attr_render_children attr_touchable_children attr_jsx
      maskedView_def)

lemma descend_content:
  "descend (render props ts sp) (maskPath @ [''children'']) = Some (maskContent props ts)"
  by (simp add: descend_append descend_mask maskElement_def attr_jsx)

lemma render_cong:
  assumes "\<And>k. k \<noteq> ''textStyle'' \<Longrightarrow> getProp p' k = getProp p k"
    and "touchableProps p' = touchableProps p"
  shows "render p' ts sp = render p ts sp"
  using assms
  by (simp add: render_def touchableOpacity_def maskedView_def maskElement_def maskContent_def
      linearGradient_def)

lemma GradientButton_again:
  "result (GradientButton (propsAfter (GradientButton props))) = result (GradientButton props)"
proof (cases "isl (result (GradientButton props))")
  case True
  then show ?thesis by (simp add: GradientButton_propsAfter_raise)
next
  case False
  let ?p = "propsAfter (GradientButton props)"
  from False obtain t where t: "result (GradientButton props) = Inr t"
    by (cases "result (GradientButton props)") simp_all
  then obtain ts where v: "snd (validateTextStyle (getProp props ''textStyle'')) = Inr ts"
    and r: "t = render props ts (splitStyle (getProp props ''style''))"
    by (rule GradientButton_tree)
  have o: "\<And>k. k \<noteq> ''textStyle'' \<Longrightarrow> getProp ?p k = getProp props k"
    by (rule getProp_propsAfter_other)
  have ts: "getProp ?p ''textStyle'' = ts"
    by (rule getProp_propsAfter_textStyle [OF v False])
  have v': "snd (validateTextStyle ts) = Inr ts"
    by (simp add: validateTextStyle_Inr(7) [OF v])
  have valid: "truthy (getProp props ''text'')"
      "\<not> (\<not> truthy (getProp props ''colors'') \<or> \<not> isArray (getProp props ''colors'')
          \<or> length (elements (getProp props ''colors'')) < 2)"
      "checkColors (elements (getProp props ''colors'')) 0 = None"
    using t by (auto simp: GradientButton_result split: if_splits option.splits)
  have "result (GradientButton ?p) = Inr (render ?p ts (splitStyle (getProp props ''style'')))"
    unfolding GradientButton_result [of ?p] ts v' using valid by (simp add: o)
  also have "render ?p ts (splitStyle (getProp props ''style'')) = t"
    unfolding r by (rule render_cong [OF o touchableProps_propsAfter])
  finally show ?thesis by (simp add: t)
qed

lemma flatten_plain:
  "truthy v \<Longrightarrow> typeof v = ''object'' \<Longrightarrow> \<not> isArray v \<Longrightarrow> flattenStyle v = entries v"
  by (cases v) simp_all

lemma flatten_text:
  assumes "flattenStyle v = kvs"
  shows "map_of (flattenStyle (JArr [styles_buttonText, v])) k =
     (case map_of (rev kvs) k of Some x \<Rightarrow> Some x
      | None \<Rightarrow> map_of [(''color'', JStr ''#000000''), (''textShadowColor'', JStr ''#000000'')] k)"
  using assms
  by (simp add: styles_buttonText_def map_of_spread map_add_def split: option.splits)

subsection \<open>The sample inputs evaluated\<close>

lemma sample_result:
  "result (GradientButton sampleProps) =
     Inr (render sampleProps (JObj [(''fontSize'', JNum 18)]) sampleSplit)"
proof -
  have v: "snd (validateTextStyle (JObj [(''color'', JStr ''red''), (''fontSize'', JNum 18)])) =
      Inr (JObj [(''fontSize'', JNum 18)])"
    by (simp add: validateTextStyle_obj restrictedTextProps_def)
  have s: "splitStyle (JObj sampleStyle) = sampleSplit"
    by (simp add: splitStyle_def sampleStyle_def sampleSplit_def emptySplit_def
        rejectedKeys_def layoutKeys_def)
  have g: "getProp sampleProps ''text'' = JStr ''Hi''"
      "getProp sampleProps ''colors'' = JArr [JStr ''red'', JStr ''blue'']"
      "getProp sampleProps ''textStyle'' = JObj [(''color'', JStr ''red''), (''fontSize'', JNum 18)]"
      "getProp sampleProps ''style'' = JObj sampleStyle"
    by (simp_all add: sampleProps_def getProp_def)
  show ?thesis
    unfolding GradientButton_result g v s by simp
qed

lemma sample_after:
  "getProp (propsAfter (GradientButton sampleProps)) ''textStyle'' = JObj [(''fontSize'', JNum 18)]"
proof -
  have g: "getProp sampleProps ''textStyle'' =
      JObj [(''color'', JStr ''red''), (''fontSize'', JNum 18)]"
    by (simp add: sampleProps_def getProp_def)
  have v: "snd (validateTextStyle (getProp sampleProps ''textStyle'')) =
      Inr (JObj [(''fontSize'', JNum 18)])"
    unfolding g by (simp add: validateTextStyle_obj restrictedTextProps_def)
  show ?thesis
    by (rule getProp_propsAfter_textStyle [OF v]) (simp add: sample_result)
qed

lemma loading_result:
  "result (GradientButton loadingProps) = Inr (render loadingProps JUndefined emptySplit)"
proof -
  have v: "snd (validateTextStyle JUndefined) = Inr JUndefined"
    by (simp add: validateTextStyle_def)
  have s: "splitStyle (JArr [JObj sampleStyle]) = emptySplit"
    by (simp add: splitStyle_def)
  have g: "getProp loadingProps ''text'' = JStr ''Hi''"
      "getProp loadingProps ''colors'' = JArr [JStr ''red'', JStr ''blue'']"
      "getProp loadingProps ''textStyle'' = JUndefined"
      "getProp loadingProps ''style'' = JArr [JObj sampleStyle]"
    by (simp_all add: loadingProps_def getProp_def)
  show ?thesis
    unfolding GradientButton_result g v s by simp
qed

lemma frozen_result:
  "result (GradientButton frozenProps) = Inl (CannotDelete ''color'')"
proof -
  have v: "validateTextStyle (JFrozen [(''color'', JStr ''red''), (''fontSize'', JNum 18)]) =
      ([TextStyleNotAllowed ''color''], Inl (CannotDelete ''color''))"
    by (simp add: validateTextStyle_def restrictedTextProps_def)
  have g: "getProp frozenProps ''text'' = JStr ''Hi''"
      "getProp frozenProps ''colors'' = JArr [JStr ''red'', JStr ''blue'']"
      "getProp frozenProps ''textStyle'' =
         JFrozen [(''color'', JStr ''red''), (''fontSize'', JNum 18)]"
    by (simp_all add: frozenProps_def getProp_def)
  show ?thesis
    unfolding GradientButton_result g v by simp
qed

subsection \<open>The claims\<close>

text \<open>
  C1. For a plain (non-array) object given as \<^verbatim>\<open>style\<close>, \<^verbatim>\<open>splitStyle\<close> sends every property
  to exactly one place: the four rejected keys reach neither output; the sixteen layout
  keys reach \<open>outerStyle\<close> only, with their value; every other key reaches \<open>innerStyle\<close>
  only, with its value. The two outputs have disjoint key sets, and together they hold the
  keys of the input without the rejected ones.
\<close>

theorem splitStyle_partition:
  assumes "truthy style" and "typeof style = ''object''" and "\<not> isArray style"
    and "distinct (map fst (entries style))"
  shows "(\<forall>k \<in> set rejectedKeys.
            map_of (outerStyle (splitStyle style)) k = None \<and>
            map_of (innerStyle (splitStyle style)) k = None) \<and>
         (\<forall>k \<in> set layoutKeys.
            map_of (outerStyle (splitStyle style)) k = map_of (entries style) k \<and>
            map_of (innerStyle (splitStyle style)) k = None) \<and>
         (\<forall>k. k \<notin> set rejectedKeys \<and> k \<notin> set layoutKeys \<longrightarrow>
            map_of (innerStyle (splitStyle style)) k = map_of (entries style) k \<and>
            map_of (outerStyle (splitStyle style)) k = None) \<and>
         fst ` set (outerStyle (splitStyle style)) \<inter>
           fst ` set (innerStyle (splitStyle style)) = {} \<and>
         fst ` set (outerStyle (splitStyle style)) \<union>
           fst ` set (innerStyle (splitStyle style)) =
           fst ` set (entries style) - set rejectedKeys"
proof -
  let ?o = "map_of (outerStyle (splitStyle style))"
  let ?i = "map_of (innerStyle (splitStyle style))"
  let ?m = "map_of (entries style)"
  have o: "\<And>k. ?o k = (if k \<in> set layoutKeys then ?m k else None)"
    by (rule outer_plain [OF assms])
  have i: "\<And>k. ?i k = (if k \<notin> set rejectedKeys \<and> k \<notin> set layoutKeys then ?m k else None)"
    by (rule inner_plain [OF assms])
  have c1: "\<forall>k \<in> set rejectedKeys. ?o k = None \<and> ?i k = None"
    using layout_not_rejected by (auto simp: o i)
  have c2: "\<forall>k \<in> set layoutKeys. ?o k = ?m k \<and> ?i k = None"
    by (simp add: o i)
  have c3: "\<forall>k. k \<notin> set rejectedKeys \<and> k \<notin> set layoutKeys \<longrightarrow> ?i k = ?m k \<and> ?o k = None"
    by (simp add: o i)
  have c4: "dom ?o \<inter> dom ?i = {}"
    by (auto simp: o i dom_def)
  have c5: "dom ?o \<union> dom ?i = dom ?m - set rejectedKeys"
    using layout_not_rejected by (auto simp: o i dom_def split: if_splits)
  show ?thesis
    using c1 c2 c3 c4 c5 unfolding keys_dom by blast
qed

theorem splitStyle_partition_witness:
  "truthy (JObj sampleStyle) \<and> typeof (JObj sampleStyle) = ''object'' \<and>
   \<not> isArray (JObj sampleStyle) \<and> distinct (map fst (entries (JObj sampleStyle))) \<and>
   map_of (outerStyle (splitStyle (JObj sampleStyle))) ''width'' = Some (JNum 10) \<and>
   map_of (innerStyle (splitStyle (JObj sampleStyle))) ''width'' = None \<and>
   map_of (outerStyle (splitStyle (JObj sampleStyle))) ''color'' = None \<and>
   map_of (innerStyle (splitStyle (JObj sampleStyle))) ''color'' = None \<and>
   map_of (innerStyle (splitStyle (JObj sampleStyle))) ''borderRadius'' = Some (JNum 8) \<and>
   map_of (outerStyle (splitStyle (JObj sampleStyle))) ''borderRadius'' = None \<and>
   fst ` set (outerStyle (splitStyle (JObj sampleStyle))) \<union>
     fst ` set (innerStyle (splitStyle (JObj sampleStyle))) =
     {''width'', ''borderRadius'', ''marginTop''}"
proof -
  have p: "truthy (JObj sampleStyle)" "typeof (JObj sampleStyle) = ''object''"
      "\<not> isArray (JObj sampleStyle)"
    by simp_all
  have d: "distinct (map fst (entries (JObj sampleStyle)))"
    by (simp add: sampleStyle_def)
  have r: "set rejectedKeys =
      {''backgroundColor'', ''borderColor'', ''shadowColor'', ''color''}"
    by (simp add: rejectedKeys_def)
  have k: "fst ` set (entries (JObj sampleStyle)) =
      {''width'', ''color'', ''borderRadius'', ''marginTop''}"
    by (simp add: sampleStyle_def)
  have m: "map_of (entries (JObj sampleStyle)) ''width'' = Some (JNum 10)"
      "map_of (entries (JObj sampleStyle)) ''borderRadius'' = Some (JNum 8)"
    by (simp_all add: sampleStyle_def)
  have l: "''width'' \<in> set layoutKeys" "''borderRadius'' \<notin> set layoutKeys"
      "''color'' \<in> set rejectedKeys" "''borderRadius'' \<notin> set rejectedKeys"
    by (simp_all add: layoutKeys_def rejectedKeys_def)
  have diff: "fst ` set (entries (JObj sampleStyle)) - set rejectedKeys =
      {''width'', ''borderRadius'', ''marginTop''}"
    unfolding k r by auto
  show ?thesis
    using splitStyle_partition [OF p d] p d m l diff by metis
qed

text \<open>
  C2. The claim is that \<^verbatim>\<open>GradientButton\<close> raises exactly when \<^verbatim>\<open>text\<close> is falsy, or
  \<^verbatim>\<open>colors\<close> is absent, is not an array, has fewer than two elements, or holds an element
  that is not a string. The code raises in those cases and in one more: when \<^verbatim>\<open>textStyle\<close>
  is a frozen object that owns one of the three restricted keys, the \<^verbatim>\<open>delete\<close> raises.
\<close>

theorem GradientButton_throws_iff:
  "isl (result (GradientButton props)) \<longleftrightarrow>
      \<not> truthy (getProp props ''text'') \<or>
      \<not> isArray (getProp props ''colors'') \<or>
      length (elements (getProp props ''colors'')) < 2 \<or>
      (\<exists>c \<in> set (elements (getProp props ''colors'')). typeof c \<noteq> ''string'') \<or>
      (\<exists>kvs. getProp props ''textStyle'' = JFrozen kvs \<and>
             (\<exists>p \<in> set restrictedTextProps. p \<in> fst ` set kvs))"
proof -
  have c: "checkColors (elements (getProp props ''colors'')) 0 = None \<longleftrightarrow>
      (\<forall>c \<in> set (elements (getProp props ''colors'')). typeof c = ''string'')"
    by (rule checkColors_None)
  have v: "isl (snd (validateTextStyle (getProp props ''textStyle''))) \<longleftrightarrow>
      (\<exists>kvs. getProp props ''textStyle'' = JFrozen kvs \<and>
             (\<exists>p \<in> set restrictedTextProps. p \<in> fst ` set kvs))"
    by (rule validateTextStyle_raises)
  show ?thesis
    unfolding v [symmetric]
    using c isArray_truthy [of "getProp props ''colors''"]
    by (auto simp: GradientButton_result split: option.splits sum.splits)
qed

theorem GradientButton_throws_iff_witness:
  "truthy (getProp frozenProps ''text'') \<and>
   isArray (getProp frozenProps ''colors'') \<and>
   length (elements (getProp frozenProps ''colors'')) = 2 \<and>
   list_all (\<lambda>c. typeof c = ''string'') (elements (getProp frozenProps ''colors'')) \<and>
   getProp frozenProps ''textStyle'' =
     JFrozen [(''color'', JStr ''red''), (''fontSize'', JNum 18)] \<and>
   isl (result (GradientButton frozenProps)) \<and>
   result (GradientButton frozenProps) = Inl (CannotDelete ''color'')"
proof -
  have g: "getProp frozenProps ''text'' = JStr ''Hi''"
      "getProp frozenProps ''colors'' = JArr [JStr ''red'', JStr ''blue'']"
      "getProp frozenProps ''textStyle'' =
         JFrozen [(''color'', JStr ''red''), (''fontSize'', JNum 18)]"
    by (simp_all add: frozenProps_def getProp_def)
  have "isl (result (GradientButton frozenProps))"
    using GradientButton_throws_iff [of frozenProps] unfolding g
    by (simp add: restrictedTextProps_def)
  then show ?thesis
    unfolding g by (simp add: frozen_result)
qed

text \<open>
  The text style of a call that returns. When \<^verbatim>\<open>textStyle\<close> is a plain object, the call
  returns and \<^verbatim>\<open>loading\<close> is falsy, the style of the \<^verbatim>\<open>Text\<close> element is the pair of
  \<^verbatim>\<open>styles.buttonText\<close> and the caller's object as the call left it: with the entries it
  had, except those of \<^verbatim>\<open>color\<close>, \<^verbatim>\<open>textDecorationColor\<close> and \<^verbatim>\<open>textShadowColor\<close>; one
  warning is logged for each of the three keys that was present; and the effective style
  has \<^verbatim>\<open>color\<close> and \<^verbatim>\<open>textShadowColor\<close> equal to \<^verbatim>\<open>#000000\<close> and no \<^verbatim>\<open>textDecorationColor\<close>.
\<close>

lemma textStyle_colors_removed:
  assumes obj: "truthy (getProp props ''textStyle'')"
      "typeof (getProp props ''textStyle'') = ''object''"
      "\<not> isArray (getProp props ''textStyle'')"
    and ok: "result (GradientButton props) = Inr t"
    and nl: "\<not> truthy (getProp props ''loading'')"
  shows "componentAt t (maskPath @ [''children'']) = Some ''Text'' \<and>
         descend t (maskPath @ [''children'', ''style'']) =
           Some (Val (JArr [styles_buttonText,
                            getProp (propsAfter (GradientButton props)) ''textStyle''])) \<and>
         entries (getProp (propsAfter (GradientButton props)) ''textStyle'') =
           filter (\<lambda>(k, v). k \<notin> set restrictedTextProps) (entries (getProp props ''textStyle'')) \<and>
         (\<forall>k \<in> set restrictedTextProps.
            \<not> has_key k (getProp (propsAfter (GradientButton props)) ''textStyle'')) \<and>
         warnings (GradientButton props) =
           map TextStyleNotAllowed
             (filter (\<lambda>p. has_key p (getProp props ''textStyle'')) restrictedTextProps) @
           warned (splitStyle (getProp props ''style'')) \<and>
         map_of (flattenStyle (JArr [styles_buttonText,
             getProp (propsAfter (GradientButton props)) ''textStyle''])) ''color'' =
           Some (JStr ''#000000'') \<and>
         map_of (flattenStyle (JArr [styles_buttonText,
             getProp (propsAfter (GradientButton props)) ''textStyle''])) ''textShadowColor'' =
           Some (JStr ''#000000'') \<and>
         map_of (flattenStyle (JArr [styles_buttonText,
             getProp (propsAfter (GradientButton props)) ''textStyle''])) ''textDecorationColor'' =
           None"
proof -
  let ?after = "getProp (propsAfter (GradientButton props)) ''textStyle''"
  from ok obtain ts where v: "snd (validateTextStyle (getProp props ''textStyle'')) = Inr ts"
    and t: "t = render props ts (splitStyle (getProp props ''style''))"
    by (rule GradientButton_tree)
  have after: "?after = ts"
    by (rule getProp_propsAfter_textStyle [OF v]) (simp add: ok)
  note vs = validateTextStyle_Inr [OF v]
  have content: "descend t (maskPath @ [''children'']) =
      Some (jsx ''Text''
       [(''style'', Val (JArr [styles_buttonText, ts])),
        (''children'', Val (getProp props ''text''))])"
    using nl by (simp add: t descend_content maskContent_def truthy_dflt_False)
  have c: "componentAt t (maskPath @ [''children'']) = Some ''Text''"
    by (simp add: componentAt_def content component_jsx)
  have "descend t ((maskPath @ [''children'']) @ [''style'']) =
           Some (Val (JArr [styles_buttonText, ts]))"
    unfolding descend_append [of t "maskPath @ [''children'']"] content
    by (simp add: attr_jsx)
  then have s: "descend t (maskPath @ [''children'', ''style'']) =
           Some (Val (JArr [styles_buttonText, ts]))"
    by simp
  have e: "entries ts =
      filter (\<lambda>(k, v). k \<notin> set restrictedTextProps) (entries (getProp props ''textStyle''))"
    by (rule vs(1))
  have h: "\<forall>k \<in> set restrictedTextProps. \<not> has_key k ts"
    unfolding has_key_entries e by auto
  have w: "warnings (GradientButton props) =
           map TextStyleNotAllowed
             (filter (\<lambda>p. has_key p (getProp props ''textStyle'')) restrictedTextProps) @
           warned (splitStyle (getProp props ''style''))"
    by (simp add: GradientButton_warnings [OF ok] vs(2))
  have fl: "flattenStyle ts = entries ts"
    using obj by (intro flatten_plain) (simp_all add: vs(3,4,5))
  have none: "\<And>k. k \<in> set restrictedTextProps \<Longrightarrow> map_of (rev (entries ts)) k = None"
    unfolding e by (auto simp: map_of_eq_None_iff)
  have r: "''color'' \<in> set restrictedTextProps" "''textShadowColor'' \<in> set restrictedTextProps"
      "''textDecorationColor'' \<in> set restrictedTextProps"
    by (simp_all add: restrictedTextProps_def)
  have f1: "map_of (flattenStyle (JArr [styles_buttonText, ts])) ''color'' =
      Some (JStr ''#000000'')"
    unfolding flatten_text [OF fl] by (simp add: none [OF r(1)])
  have f2: "map_of (flattenStyle (JArr [styles_buttonText, ts])) ''textShadowColor'' =
      Some (JStr ''#000000'')"
    unfolding flatten_text [OF fl] by (simp add: none [OF r(2)])
  have f3: "map_of (flattenStyle (JArr [styles_buttonText, ts])) ''textDecorationColor'' = None"
    unfolding flatten_text [OF fl] by (simp add: none [OF r(3)])
  from c s e h w f1 f2 f3 show ?thesis
    unfolding after by blast
qed

lemma textStyle_colors_removed_sample:
  "truthy (getProp sampleProps ''textStyle'') \<and>
   typeof (getProp sampleProps ''textStyle'') = ''object'' \<and>
   \<not> isArray (getProp sampleProps ''textStyle'') \<and>
   result (GradientButton sampleProps) =
     Inr (render sampleProps (JObj [(''fontSize'', JNum 18)]) sampleSplit) \<and>
   \<not> truthy (getProp sampleProps ''loading'') \<and>
   getProp sampleProps ''textStyle'' =
     JObj [(''color'', JStr ''red''), (''fontSize'', JNum 18)] \<and>
   getProp (propsAfter (GradientButton sampleProps)) ''textStyle'' =
     JObj [(''fontSize'', JNum 18)] \<and>
   descend (render sampleProps (JObj [(''fontSize'', JNum 18)]) sampleSplit)
       (maskPath @ [''children'', ''style'']) =
     Some (Val (JArr [styles_buttonText, JObj [(''fontSize'', JNum 18)]])) \<and>
   warnings (GradientButton sampleProps) =
     [TextStyleNotAllowed ''color'', StyleNotAllowed ''color''] \<and>
   map_of (flattenStyle (JArr [styles_buttonText, JObj [(''fontSize'', JNum 18)]])) ''color'' =
     Some (JStr ''#000000'')"
proof -
  have ts: "getProp sampleProps ''textStyle'' =
      JObj [(''color'', JStr ''red''), (''fontSize'', JNum 18)]"
    by (simp add: sampleProps_def getProp_def)
  have obj: "truthy (getProp sampleProps ''textStyle'')"
      "typeof (getProp sampleProps ''textStyle'') = ''object''"
      "\<not> isArray (getProp sampleProps ''textStyle'')"
    unfolding ts by simp_all
  have nl: "\<not> truthy (getProp sampleProps ''loading'')"
    by (simp add: sampleProps_def getProp_def)
  have st: "warned (splitStyle (getProp sampleProps ''style'')) = [StyleNotAllowed ''color'']"
    by (simp add: sampleProps_def getProp_def splitStyle_def sampleStyle_def emptySplit_def
        rejectedKeys_def layoutKeys_def)
  have g: "map TextStyleNotAllowed
        (filter (\<lambda>p. has_key p (JObj [(''color'', JStr ''red''), (''fontSize'', JNum 18)]))
          restrictedTextProps) @ [StyleNotAllowed ''color''] =
      [TextStyleNotAllowed ''color'', StyleNotAllowed ''color'']"
    by (simp add: restrictedTextProps_def)
  note th = textStyle_colors_removed [OF obj sample_result nl, unfolded sample_after st, unfolded ts g]
  show ?thesis
    using th obj sample_result nl ts sample_after by blast
qed

text \<open>
  C3. The claim is that for every plain object given as \<^verbatim>\<open>textStyle\<close> each of \<^verbatim>\<open>color\<close>,
  \<^verbatim>\<open>textDecorationColor\<close> and \<^verbatim>\<open>textShadowColor\<close> that it holds is removed with a warning, so
  that the text renders with the base colours. The code does so for an ordinary object
  (the lemma above). For a frozen plain object that owns one of the three keys, with valid
  \<^verbatim>\<open>text\<close> and \<^verbatim>\<open>colors\<close>, it logs one warning, the \<^verbatim>\<open>delete\<close> raises, no tree is returned
  and the key is still in the caller's object.
\<close>

theorem frozen_textStyle_keeps_key:
  assumes ts: "getProp props ''textStyle'' = JFrozen kvs"
    and p: "p \<in> set restrictedTextProps" "p \<in> fst ` set kvs"
    and valid: "truthy (getProp props ''text'')" "isArray (getProp props ''colors'')"
      "2 \<le> length (elements (getProp props ''colors''))"
      "\<forall>c \<in> set (elements (getProp props ''colors'')). typeof c = ''string''"
  shows "truthy (getProp props ''textStyle'') \<and>
         typeof (getProp props ''textStyle'') = ''object'' \<and>
         \<not> isArray (getProp props ''textStyle'') \<and>
         (\<exists>q \<in> set restrictedTextProps.
            result (GradientButton props) = Inl (CannotDelete q) \<and>
            warnings (GradientButton props) = [TextStyleNotAllowed q]) \<and>
         propsAfter (GradientButton props) = props \<and>
         has_key p (getProp (propsAfter (GradientButton props)) ''textStyle'')"
proof -
  from validateTextStyle_frozen_bad [OF p] obtain q where q: "q \<in> set restrictedTextProps"
    and v: "validateTextStyle (JFrozen kvs) = ([TextStyleNotAllowed q], Inl (CannotDelete q))"
    by blast
  have c: "checkColors (elements (getProp props ''colors'')) 0 = None"
    using valid(4) by (simp add: checkColors_None)
  have t: "truthy (getProp props ''colors'')"
    by (rule isArray_truthy [OF valid(2)])
  have r: "result (GradientButton props) = Inl (CannotDelete q)"
    using valid(1,2,3) t c by (simp add: GradientButton_result ts v)
  have w: "warnings (GradientButton props) = [TextStyleNotAllowed q]"
    using valid(1,2,3) t c by (simp add: GradientButton_def Let_def raise_def ts v)
  have a: "propsAfter (GradientButton props) = props"
    by (rule GradientButton_propsAfter_raise) (simp add: r)
  have h: "has_key p (getProp (propsAfter (GradientButton props)) ''textStyle'')"
    unfolding a ts using p(2) by simp
  from q r w a h show ?thesis
    by (auto simp: ts)
qed

theorem frozen_textStyle_keeps_key_witness:
  "getProp frozenProps ''textStyle'' =
     JFrozen [(''color'', JStr ''red''), (''fontSize'', JNum 18)] \<and>
   truthy (getProp frozenProps ''textStyle'') \<and>
   typeof (getProp frozenProps ''textStyle'') = ''object'' \<and>
   \<not> isArray (getProp frozenProps ''textStyle'') \<and>
   result (GradientButton frozenProps) = Inl (CannotDelete ''color'') \<and>
   propsAfter (GradientButton frozenProps) = frozenProps \<and>
   has_key ''color'' (getProp (propsAfter (GradientButton frozenProps)) ''textStyle'')"
proof -
  have g: "getProp frozenProps ''text'' = JStr ''Hi''"
      "getProp frozenProps ''colors'' = JArr [JStr ''red'', JStr ''blue'']"
    by (simp_all add: frozenProps_def getProp_def)
  have ts: "getProp frozenProps ''textStyle'' =
      JFrozen [(''color'', JStr ''red''), (''fontSize'', JNum 18)]"
    by (simp add: frozenProps_def getProp_def)
  have p: "''color'' \<in> set restrictedTextProps"
      "''color'' \<in> fst ` set [(''color'', JStr ''red''), (''fontSize'', JNum 18)]"
    by (simp_all add: restrictedTextProps_def)
  have valid: "truthy (getProp frozenProps ''text'')" "isArray (getProp frozenProps ''colors'')"
      "2 \<le> length (elements (getProp frozenProps ''colors''))"
      "\<forall>c \<in> set (elements (getProp frozenProps ''colors'')). typeof c = ''string''"
    unfolding g by simp_all
  from frozen_textStyle_keeps_key [OF ts p valid] ts frozen_result show ?thesis
    by blast
qed

text \<open>
  C4. The claim is that a call leaves every prop value unchanged. The code writes to one
  object of the caller, an ordinary object given as \<^verbatim>\<open>textStyle\<close>: every other prop reads
  the same afterwards and the keys of the prop bag are the same; a call that raises writes
  nothing; when \<^verbatim>\<open>textStyle\<close> is not an ordinary object, or holds none of \<^verbatim>\<open>color\<close>,
  \<^verbatim>\<open>textDecorationColor\<close> and \<^verbatim>\<open>textShadowColor\<close>, the prop bag is unchanged; when it is one
  and the call returns, the caller's object is left without those three entries; and a
  second call on the prop bag left by the first returns the same result and leaves the
  prop bag as it found it.
\<close>

theorem GradientButton_writes_textStyle_only:
  "(\<forall>k. k \<noteq> ''textStyle'' \<longrightarrow>
      getProp (propsAfter (GradientButton props)) k = getProp props k) \<and>
   map fst (propsAfter (GradientButton props)) = map fst props \<and>
   (isl (result (GradientButton props)) \<longrightarrow> propsAfter (GradientButton props) = props) \<and>
   ((\<forall>kvs. getProp props ''textStyle'' \<noteq> JObj kvs) \<longrightarrow>
      propsAfter (GradientButton props) = props) \<and>
   ((\<forall>k \<in> set restrictedTextProps. \<not> has_key k (getProp props ''textStyle'')) \<longrightarrow>
      propsAfter (GradientButton props) = props) \<and>
   (\<forall>kvs. getProp props ''textStyle'' = JObj kvs \<and> \<not> isl (result (GradientButton props)) \<longrightarrow>
      getProp (propsAfter (GradientButton props)) ''textStyle'' =
        JObj (filter (\<lambda>(k, v). k \<notin> set restrictedTextProps) kvs)) \<and>
   result (GradientButton (propsAfter (GradientButton props))) = result (GradientButton props) \<and>
   propsAfter (GradientButton (propsAfter (GradientButton props))) =
     propsAfter (GradientButton props)"
proof -
  let ?p = "propsAfter (GradientButton props)"
  let ?ts = "getProp props ''textStyle''"
  have a: "\<forall>k. k \<noteq> ''textStyle'' \<longrightarrow> getProp ?p k = getProp props k"
    by (simp add: getProp_propsAfter_other)
  have b: "map fst ?p = map fst props"
    by (rule keys_propsAfter)
  have c: "isl (result (GradientButton props)) \<longrightarrow> ?p = props"
    by (simp add: GradientButton_propsAfter_raise)
  have d: "(\<forall>kvs. ?ts \<noteq> JObj kvs) \<longrightarrow> ?p = props"
  proof
    assume n: "\<forall>kvs. ?ts \<noteq> JObj kvs"
    show "?p = props"
    proof (cases "snd (validateTextStyle ?ts)")
      case (Inl e)
      then have "isl (result (GradientButton props))"
        by (auto simp: GradientButton_result split: option.splits)
      then show ?thesis by (rule GradientButton_propsAfter_raise)
    next
      case (Inr ts)
      from validateTextStyle_Inr(6) [OF Inr n] Inr show ?thesis
        by (intro propsAfter_unchanged) simp
    qed
  qed
  have e: "(\<forall>k \<in> set restrictedTextProps. \<not> has_key k ?ts) \<longrightarrow> ?p = props"
  proof
    assume "\<forall>k \<in> set restrictedTextProps. \<not> has_key k ?ts"
    then have "validateTextStyle ?ts = ([], Inr ?ts)"
      by (rule validateTextStyle_no_key)
    then show "?p = props"
      by (intro propsAfter_unchanged) simp
  qed
  have f: "\<forall>kvs. ?ts = JObj kvs \<and> \<not> isl (result (GradientButton props)) \<longrightarrow>
      getProp ?p ''textStyle'' = JObj (filter (\<lambda>(k, v). k \<notin> set restrictedTextProps) kvs)"
  proof (intro allI impI)
    fix kvs
    assume h: "?ts = JObj kvs \<and> \<not> isl (result (GradientButton props))"
    then have v: "snd (validateTextStyle ?ts) =
        Inr (JObj (filter (\<lambda>(k, v). k \<notin> set restrictedTextProps) kvs))"
      by (simp add: validateTextStyle_obj)
    from h show "getProp ?p ''textStyle'' =
        JObj (filter (\<lambda>(k, v). k \<notin> set restrictedTextProps) kvs)"
      by (intro getProp_propsAfter_textStyle [OF v]) simp
  qed
  have g: "result (GradientButton ?p) = result (GradientButton props)"
    by (rule GradientButton_again)
  have i: "propsAfter (GradientButton ?p) = ?p"
  proof (cases "isl (result (GradientButton props))")
    case True
    then show ?thesis by (simp add: GradientButton_propsAfter_raise)
  next
    case False
    then obtain t where "result (GradientButton props) = Inr t"
      by (cases "result (GradientButton props)") simp_all
    then obtain ts where v: "snd (validateTextStyle ?ts) = Inr ts"
      by (rule GradientButton_tree)
    have ts: "getProp ?p ''textStyle'' = ts"
      by (rule getProp_propsAfter_textStyle [OF v False])
    show ?thesis
      by (rule propsAfter_unchanged) (simp add: ts validateTextStyle_Inr(7) [OF v])
  qed
  from a b c d e f g i show ?thesis by blast
qed

theorem GradientButton_writes_textStyle_only_witness:
  "\<not> isl (result (GradientButton sampleProps)) \<and>
   getProp sampleProps ''textStyle'' =
     JObj [(''color'', JStr ''red''), (''fontSize'', JNum 18)] \<and>
   getProp (propsAfter (GradientButton sampleProps)) ''textStyle'' =
     JObj [(''fontSize'', JNum 18)] \<and>
   getProp (propsAfter (GradientButton sampleProps)) ''style'' = getProp sampleProps ''style'' \<and>
   isl (result (GradientButton badProps)) \<and>
   propsAfter (GradientButton badProps) = badProps \<and>
   isl (result (GradientButton frozenProps)) \<and>
   propsAfter (GradientButton frozenProps) = frozenProps"
proof -
  have a: "\<not> isl (result (GradientButton sampleProps))"
    by (simp add: sample_result)
  have b: "isl (result (GradientButton badProps))"
    by (simp add: GradientButton_result badProps_def getProp_def)
  have c: "isl (result (GradientButton frozenProps))"
    by (simp add: frozen_result)
  have ts: "getProp sampleProps ''textStyle'' =
      JObj [(''color'', JStr ''red''), (''fontSize'', JNum 18)]"
    by (simp add: sampleProps_def getProp_def)
  have f: "filter (\<lambda>(k, v). k \<notin> set restrictedTextProps)
      [(''color'', JStr ''red''), (''fontSize'', JNum 18)] = [(''fontSize'', JNum 18)]"
    by (simp add: restrictedTextProps_def)
  show ?thesis
    using GradientButton_writes_textStyle_only [of sampleProps]
      GradientButton_writes_textStyle_only [of badProps]
      GradientButton_writes_textStyle_only [of frozenProps] a b c f
    unfolding ts by simp
qed

text \<open>
  The failing input evaluated: a \<^verbatim>\<open>textStyle\<close> object that holds \<^verbatim>\<open>color\<close> has lost the entry
  after the call, so the prop bag is not what the caller passed.
\<close>

theorem GradientButton_mutates_textStyle:
  "getProp sampleProps ''textStyle'' =
     JObj [(''color'', JStr ''red''), (''fontSize'', JNum 18)] \<and>
   getProp (propsAfter (GradientButton sampleProps)) ''textStyle'' =
     JObj [(''fontSize'', JNum 18)] \<and>
   propsAfter (GradientButton sampleProps) \<noteq> sampleProps"
proof -
  have ts: "getProp sampleProps ''textStyle'' =
      JObj [(''color'', JStr ''red''), (''fontSize'', JNum 18)]"
    by (simp add: sampleProps_def getProp_def)
  have "getProp (propsAfter (GradientButton sampleProps)) ''textStyle'' \<noteq>
      getProp sampleProps ''textStyle''"
    by (simp add: sample_after ts)
  then have "propsAfter (GradientButton sampleProps) \<noteq> sampleProps"
    by auto
  with ts sample_after show ?thesis by simp
qed

text \<open>
  C5. \<^verbatim>\<open>splitStyle\<close> treats every entry on its own: for two plain objects with disjoint
  key sets, the merged object holds the entries of the one followed by those of the other,
  and each of \<open>outerStyle\<close> and \<open>innerStyle\<close> of the merged object is the union, key by key,
  of the same output for the two objects split separately.
\<close>

theorem splitStyle_merge:
  assumes px: "truthy x" "typeof x = ''object''" "\<not> isArray x"
    and py: "truthy y" "typeof y = ''object''" "\<not> isArray y"
    and dx: "distinct (map fst (entries x))" and dy: "distinct (map fst (entries y))"
    and disj: "fst ` set (entries x) \<inter> fst ` set (entries y) = {}"
  shows "spread (entries x) (entries y) = entries x @ entries y \<and>
         map_of (outerStyle (splitStyle (JObj (spread (entries x) (entries y))))) =
           map_of (outerStyle (splitStyle x)) ++ map_of (outerStyle (splitStyle y)) \<and>
         map_of (innerStyle (splitStyle (JObj (spread (entries x) (entries y))))) =
           map_of (innerStyle (splitStyle x)) ++ map_of (innerStyle (splitStyle y)) \<and>
         fst ` set (outerStyle (splitStyle (JObj (spread (entries x) (entries y))))) =
           fst ` set (outerStyle (splitStyle x)) \<union> fst ` set (outerStyle (splitStyle y)) \<and>
         fst ` set (innerStyle (splitStyle (JObj (spread (entries x) (entries y))))) =
           fst ` set (innerStyle (splitStyle x)) \<union> fst ` set (innerStyle (splitStyle y))"
proof -
  let ?m = "JObj (spread (entries x) (entries y))"
  have pm: "truthy ?m" "typeof ?m = ''object''" "\<not> isArray ?m"
    by simp_all
  have ab: "spread (entries x) (entries y) = entries x @ entries y"
    by (rule spread_disjoint [OF dy disj])
  have dm: "distinct (map fst (entries ?m))"
    using distinct_spread [OF dx] by simp
  have m: "map_of (spread (entries x) (entries y)) = map_of (entries x) ++ map_of (entries y)"
    by (simp add: map_of_spread map_of_rev_distinct [OF dy])
  have o: "map_of (outerStyle (splitStyle ?m)) =
      map_of (outerStyle (splitStyle x)) ++ map_of (outerStyle (splitStyle y))"
    by (rule ext)
      (auto simp: outer_plain [OF pm dm] outer_plain [OF px dx] outer_plain [OF py dy] m
            map_add_def split: option.splits)
  have i: "map_of (innerStyle (splitStyle ?m)) =
      map_of (innerStyle (splitStyle x)) ++ map_of (innerStyle (splitStyle y))"
    by (rule ext)
      (auto simp: inner_plain [OF pm dm] inner_plain [OF px dx] inner_plain [OF py dy] m
            map_add_def split: option.splits)
  have ko: "dom (map_of (outerStyle (splitStyle ?m))) =
      dom (map_of (outerStyle (splitStyle x))) \<union> dom (map_of (outerStyle (splitStyle y)))"
    unfolding o by auto
  have ki: "dom (map_of (innerStyle (splitStyle ?m))) =
      dom (map_of (innerStyle (splitStyle x))) \<union> dom (map_of (innerStyle (splitStyle y)))"
    unfolding i by auto
  show ?thesis
    using ab o i ko ki unfolding keys_dom by blast
qed

theorem splitStyle_merge_witness:
  "distinct (map fst (entries (JObj sizeStyle))) \<and>
   distinct (map fst (entries (JFrozen paintStyle))) \<and>
   fst ` set (entries (JObj sizeStyle)) \<inter> fst ` set (entries (JFrozen paintStyle)) = {} \<and>
   map_of (outerStyle (splitStyle
       (JObj (spread (entries (JObj sizeStyle)) (entries (JFrozen paintStyle)))))) =
     map_of (outerStyle (splitStyle (JObj sizeStyle))) ++
     map_of (outerStyle (splitStyle (JFrozen paintStyle))) \<and>
   map_of (innerStyle (splitStyle
       (JObj (spread (entries (JObj sizeStyle)) (entries (JFrozen paintStyle)))))) =
     map_of (innerStyle (splitStyle (JObj sizeStyle))) ++
     map_of (innerStyle (splitStyle (JFrozen paintStyle))) \<and>
   outerStyle (splitStyle
       (JObj (spread (entries (JObj sizeStyle)) (entries (JFrozen paintStyle))))) =
     [(''width'', JNum 10), (''height'', JNum 5)] \<and>
   innerStyle (splitStyle
       (JObj (spread (entries (JObj sizeStyle)) (entries (JFrozen paintStyle))))) =
     [(''flex'', JNum 1), (''opacity'', JNum (1 / 2))]"
proof -
  have px: "truthy (JObj sizeStyle)" "typeof (JObj sizeStyle) = ''object''"
      "\<not> isArray (JObj sizeStyle)"
    by simp_all
  have py: "truthy (JFrozen paintStyle)" "typeof (JFrozen paintStyle) = ''object''"
      "\<not> isArray (JFrozen paintStyle)"
    by simp_all
  have da: "distinct (map fst (entries (JObj sizeStyle)))"
    by (simp add: sizeStyle_def)
  have db: "distinct (map fst (entries (JFrozen paintStyle)))"
    by (simp add: paintStyle_def)
  have dj: "fst ` set (entries (JObj sizeStyle)) \<inter> fst ` set (entries (JFrozen paintStyle)) = {}"
    by (simp add: sizeStyle_def paintStyle_def)
  have m: "spread (entries (JObj sizeStyle)) (entries (JFrozen paintStyle)) =
      [(''width'', JNum 10), (''flex'', JNum 1), (''height'', JNum 5),
       (''backgroundColor'', JStr ''red''), (''opacity'', JNum (1 / 2))]"
    by (simp add: spread_def sizeStyle_def paintStyle_def)
  have s: "splitStyle (JObj (spread (entries (JObj sizeStyle)) (entries (JFrozen paintStyle)))) =
      \<lparr>outerStyle = [(''width'', JNum 10), (''height'', JNum 5)],
       innerStyle = [(''flex'', JNum 1), (''opacity'', JNum (1 / 2))],
       warned = [StyleNotAllowed ''backgroundColor'']\<rparr>"
    unfolding m
    by (simp add: splitStyle_def emptySplit_def rejectedKeys_def layoutKeys_def)
  have so: "outerStyle (splitStyle
       (JObj (spread (entries (JObj sizeStyle)) (entries (JFrozen paintStyle))))) =
     [(''width'', JNum 10), (''height'', JNum 5)]"
    unfolding s by simp
  have si: "innerStyle (splitStyle
       (JObj (spread (entries (JObj sizeStyle)) (entries (JFrozen paintStyle))))) =
     [(''flex'', JNum 1), (''opacity'', JNum (1 / 2))]"
    unfolding s by simp
  from splitStyle_merge [OF px py da db dj] da db dj so si show ?thesis
    by blast
qed

text \<open>
  C6. When the call returns, the mask element is a \<^verbatim>\<open>View\<close> with a single child: an
  \<^verbatim>\<open>ActivityIndicator\<close> with \<^verbatim>\<open>color\<close> \<^verbatim>\<open>loadingColor\<close> (default \<^verbatim>\<open>#FFFFFF\<close>) and \<^verbatim>\<open>size\<close>
  \<^verbatim>\<open>loadingSize\<close> (default \<^verbatim>\<open>small\<close>) and no child of its own when \<^verbatim>\<open>loading\<close> is truthy, and
  a \<^verbatim>\<open>Text\<close> whose child is the \<^verbatim>\<open>text\<close> prop otherwise.
\<close>

theorem mask_content:
  assumes ok: "result (GradientButton props) = Inr t"
  shows "componentAt t maskPath = Some ''View'' \<and>
         componentAt t (maskPath @ [''children'']) =
           Some (if truthy (getProp props ''loading'') then ''ActivityIndicator'' else ''Text'') \<and>
         (truthy (getProp props ''loading'') \<longrightarrow>
            descend t (maskPath @ [''children'', ''color'']) =
              Some (Val (dflt (JStr ''#FFFFFF'') (getProp props ''loadingColor''))) \<and>
            descend t (maskPath @ [''children'', ''size'']) =
              Some (Val (dflt (JStr ''small'') (getProp props ''loadingSize''))) \<and>
            descend t (maskPath @ [''children'', ''children'']) = None) \<and>
         (\<not> truthy (getProp props ''loading'') \<longrightarrow>
            descend t (maskPath @ [''children'', ''children'']) =
              Some (Val (getProp props ''text'')))"
proof -
  from ok obtain ts where t: "t = render props ts (splitStyle (getProp props ''style''))"
    by (rule GradientButton_tree)
  have m: "componentAt t maskPath = Some ''View''"
    by (simp add: componentAt_def t descend_mask maskElement_def component_jsx)
  have content: "descend t (maskPath @ [''children'']) = Some (maskContent props ts)"
    by (simp add: t descend_content)
  have step: "\<And>k. descend t (maskPath @ [''children'', k]) = attr (maskContent props ts) k"
  proof -
    fix k
    have "descend t ((maskPath @ [''children'']) @ [k]) = attr (maskContent props ts) k"
      unfolding descend_append [of t "maskPath @ [''children'']"] content
      by (simp split: option.splits)
    then show "descend t (maskPath @ [''children'', k]) = attr (maskContent props ts) k"
      by simp
  qed
  have c: "componentAt t (maskPath @ [''children'']) =
           Some (if truthy (getProp props ''loading'') then ''ActivityIndicator'' else ''Text'')"
    by (simp add: componentAt_def content maskContent_def component_jsx truthy_dflt_False)
  have l: "truthy (getProp props ''loading'') \<longrightarrow>
            descend t (maskPath @ [''children'', ''color'']) =
              Some (Val (dflt (JStr ''#FFFFFF'') (getProp props ''loadingColor''))) \<and>
            descend t (maskPath @ [''children'', ''size'']) =
              Some (Val (dflt (JStr ''small'') (getProp props ''loadingSize''))) \<and>
            descend t (maskPath @ [''children'', ''children'']) = None"
    by (simp add: step maskContent_def attr_jsx truthy_dflt_False)
  have n: "\<not> truthy (getProp props ''loading'') \<longrightarrow>
            descend t (maskPath @ [''children'', ''children'']) =
              Some (Val (getProp props ''text''))"
    by (simp add: step maskContent_def attr_jsx truthy_dflt_False)
  from m c l n show ?thesis by blast
qed

theorem mask_content_witness:
  "result (GradientButton loadingProps) = Inr (render loadingProps JUndefined emptySplit) \<and>
   componentAt (render loadingProps JUndefined emptySplit) (maskPath @ [''children'']) =
     Some ''ActivityIndicator'' \<and>
   descend (render loadingProps JUndefined emptySplit) (maskPath @ [''children'', ''color'']) =
     Some (Val (JStr ''#FFFFFF'')) \<and>
   descend (render loadingProps JUndefined emptySplit) (maskPath @ [''children'', ''size'']) =
     Some (Val (JStr ''small'')) \<and>
   result (GradientButton sampleProps) =
     Inr (render sampleProps (JObj [(''fontSize'', JNum 18)]) sampleSplit) \<and>
   componentAt (render sampleProps (JObj [(''fontSize'', JNum 18)]) sampleSplit)
       (maskPath @ [''children'']) = Some ''Text'' \<and>
   descend (render sampleProps (JObj [(''fontSize'', JNum 18)]) sampleSplit)
       (maskPath @ [''children'', ''children'']) = Some (Val (JStr ''Hi''))"
proof -
  have l: "getProp loadingProps ''loading'' = JBool True"
      "getProp loadingProps ''loadingColor'' = JUndefined"
      "getProp loadingProps ''loadingSize'' = JUndefined"
    by (simp_all add: loadingProps_def getProp_def)
  have s: "getProp sampleProps ''loading'' = JUndefined"
      "getProp sampleProps ''text'' = JStr ''Hi''"
    by (simp_all add: sampleProps_def getProp_def)
  show ?thesis
    using mask_content [OF loading_result] mask_content [OF sample_result]
      loading_result sample_result
    unfolding l s by (simp add: dflt_def)
qed

text \<open>
  C7. When the call returns, the tree is a \<^verbatim>\<open>View\<close> styled with \<open>outerStyle\<close>, whose child
  is a \<^verbatim>\<open>TouchableOpacity\<close>, whose child is a \<^verbatim>\<open>View\<close>, whose child is a \<^verbatim>\<open>MaskedView\<close>, whose
  child is a \<^verbatim>\<open>LinearGradient\<close> without children; the gradient gets \<^verbatim>\<open>colors\<close>,
  \<^verbatim>\<open>locations\<close> and \<^verbatim>\<open>angleCenter\<close> as given and \<^verbatim>\<open>start\<close>, \<^verbatim>\<open>end\<close>, \<^verbatim>\<open>useAngle\<close> and \<^verbatim>\<open>angle\<close>
  as given or, when undefined, their defaults.
\<close>

theorem view_tree_shape:
  assumes ok: "result (GradientButton props) = Inr t"
  shows "component t = Some ''View'' \<and>
         attr t ''style'' = Some (Val (JObj (outerStyle (splitStyle (getProp props ''style''))))) \<and>
         componentAt t [''children''] = Some ''TouchableOpacity'' \<and>
         componentAt t [''children'', ''children''] = Some ''View'' \<and>
         componentAt t [''children'', ''children'', ''children''] = Some ''MaskedView'' \<and>
         componentAt t gradientPath = Some ''LinearGradient'' \<and>
         descend t (gradientPath @ [''children'']) = None \<and>
         descend t (gradientPath @ [''colors'']) = Some (Val (getProp props ''colors'')) \<and>
         descend t (gradientPath @ [''start'']) =
           Some (Val (dflt (JObj [(''x'', JNum 0), (''y'', JNum 0)]) (getProp props ''start''))) \<and>
         descend t (gradientPath @ [''end'']) =
           Some (Val (dflt (JObj [(''x'', JNum 1), (''y'', JNum 0)]) (getProp props ''end''))) \<and>
         descend t (gradientPath @ [''locations'']) = Some (Val (getProp props ''locations'')) \<and>
         descend t (gradientPath @ [''useAngle'']) =
           Some (Val (dflt (JBool False) (getProp props ''useAngle''))) \<and>
         descend t (gradientPath @ [''angle'']) =
           Some (Val (dflt (JNum 0) (getProp props ''angle''))) \<and>
         descend t (gradientPath @ [''angleCenter'']) = Some (Val (getProp props ''angleCenter''))"
proof -
  let ?sp = "splitStyle (getProp props ''style'')"
  from ok obtain ts where t: "t = render props ts (splitStyle (getProp props ''style''))"
    by (rule GradientButton_tree)
  have c0: "component t = Some ''View''"
    by (simp add: t render_def component_jsx)
  have s0: "attr t ''style'' = Some (Val (JObj (outerStyle ?sp)))"
    by (simp add: t render_def attr_jsx)
  have c1: "componentAt t [''children''] = Some ''TouchableOpacity''"
    by (simp add: t componentAt_def attr_render_children component_touchable)
  have c2: "componentAt t [''children'', ''children''] = Some ''View''"
    by (simp add: t componentAt_def attr_render_children attr_touchable_children component_jsx)
  have c3: "componentAt t [''children'', ''children'', ''children''] = Some ''MaskedView''"
    unfolding componentAt_def t descend_maskedView
    by (simp add: maskedView_def component_jsx)
  have g: "descend t gradientPath = Some (linearGradient props)"
    by (simp add: t descend_gradient)
  have c4: "componentAt t gradientPath = Some ''LinearGradient''"
    by (simp add: componentAt_def g linearGradient_def component_jsx)
  have step: "\<And>k. descend t (gradientPath @ [k]) = attr (linearGradient props) k"
    unfolding descend_append g by (simp split: option.splits)
  have a: "descend t (gradientPath @ [''children'']) = None"
      "descend t (gradientPath @ [''colors'']) = Some (Val (getProp props ''colors''))"
      "descend t (gradientPath @ [''start'']) =
           Some (Val (dflt (JObj [(''x'', JNum 0), (''y'', JNum 0)]) (getProp props ''start'')))"
      "descend t (gradientPath @ [''end'']) =
           Some (Val (dflt (JObj [(''x'', JNum 1), (''y'', JNum 0)]) (getProp props ''end'')))"
      "descend t (gradientPath @ [''locations'']) = Some (Val (getProp props ''locations''))"
      "descend t (gradientPath @ [''useAngle'']) =
           Some (Val (dflt (JBool False) (getProp props ''useAngle'')))"
      "descend t (gradientPath @ [''angle'']) =
           Some (Val (dflt (JNum 0) (getProp props ''angle'')))"
      "descend t (gradientPath @ [''angleCenter'']) = Some (Val (getProp props ''angleCenter''))"
    unfolding step by (simp_all add: linearGradient_def attr_jsx point_def)
  from c0 s0 c1 c2 c3 c4 a show ?thesis by blast
qed

theorem view_tree_shape_witness:
  "result (GradientButton sampleProps) =
     Inr (render sampleProps (JObj [(''fontSize'', JNum 18)]) sampleSplit) \<and>
   attr (render sampleProps (JObj [(''fontSize'', JNum 18)]) sampleSplit) ''style'' =
     Some (Val (JObj [(''width'', JNum 10), (''marginTop'', JNum 4)])) \<and>
   componentAt (render sampleProps (JObj [(''fontSize'', JNum 18)]) sampleSplit) gradientPath =
     Some ''LinearGradient'' \<and>
   descend (render sampleProps (JObj [(''fontSize'', JNum 18)]) sampleSplit)
       (gradientPath @ [''colors'']) = Some (Val (JArr [JStr ''red'', JStr ''blue''])) \<and>
   descend (render sampleProps (JObj [(''fontSize'', JNum 18)]) sampleSplit)
       (gradientPath @ [''end'']) = Some (Val (JObj [(''x'', JNum 1), (''y'', JNum 0)]))"
proof -
  have g: "getProp sampleProps ''colors'' = JArr [JStr ''red'', JStr ''blue'']"
      "getProp sampleProps ''end'' = JUndefined"
    by (simp_all add: sampleProps_def getProp_def)
  have s: "outerStyle (splitStyle (getProp sampleProps ''style'')) =
      [(''width'', JNum 10), (''marginTop'', JNum 4)]"
    by (simp add: sampleProps_def getProp_def splitStyle_def sampleStyle_def emptySplit_def
        rejectedKeys_def layoutKeys_def)
  show ?thesis
    using view_tree_shape [OF sample_result] sample_result
    unfolding g s by (simp add: dflt_def)
qed

text \<open>
  C8. When \<^verbatim>\<open>style\<close> is an array or a value that is not an object (\<^verbatim>\<open>null\<close> among them),
  \<^verbatim>\<open>splitStyle\<close> returns two empty objects and logs nothing; in the tree of a call that
  returns, the outer \<^verbatim>\<open>View\<close> then has the empty style, the mask \<^verbatim>\<open>View\<close> has
  \<^verbatim>\<open>styles.maskContainer\<close> and the empty object, and no warning about a \<^verbatim>\<open>style\<close> key is
  logged.
\<close>

theorem splitStyle_non_object:
  assumes "isArray style \<or> typeof style \<noteq> ''object'' \<or> style = JNull"
  shows "splitStyle style = \<lparr>outerStyle = [], innerStyle = [], warned = []\<rparr> \<and>
         (getProp props ''style'' = style \<and> result (GradientButton props) = Inr t \<longrightarrow>
            attr t ''style'' = Some (Val (JObj [])) \<and>
            descend t (maskPath @ [''style'']) =
              Some (Val (JArr [styles_maskContainer, JObj []])) \<and>
            (\<forall>k. StyleNotAllowed k \<notin> set (warnings (GradientButton props))))"
proof -
  have e: "splitStyle style = \<lparr>outerStyle = [], innerStyle = [], warned = []\<rparr>"
    using assms by (cases style) (auto simp: splitStyle_def emptySplit_def)
  have r: "getProp props ''style'' = style \<and> result (GradientButton props) = Inr t \<longrightarrow>
            attr t ''style'' = Some (Val (JObj [])) \<and>
            descend t (maskPath @ [''style'']) =
              Some (Val (JArr [styles_maskContainer, JObj []])) \<and>
            (\<forall>k. StyleNotAllowed k \<notin> set (warnings (GradientButton props)))"
  proof
    assume h: "getProp props ''style'' = style \<and> result (GradientButton props) = Inr t"
    then have st: "getProp props ''style'' = style" and ok: "result (GradientButton props) = Inr t"
      by simp_all
    from ok obtain ts where t: "t = render props ts (splitStyle (getProp props ''style''))"
      by (rule GradientButton_tree)
    have s0: "attr t ''style'' = Some (Val (JObj []))"
      by (simp add: t st e render_def attr_jsx)
    have s1: "descend t (maskPath @ [''style'']) =
        Some (Val (JArr [styles_maskContainer, JObj []]))"
      unfolding descend_append t descend_mask
      by (simp add: st e maskElement_def attr_jsx)
    have w: "warnings (GradientButton props) =
        fst (validateTextStyle (getProp props ''textStyle''))"
      by (simp add: GradientButton_warnings [OF ok] st e)
    have s2: "\<forall>k. StyleNotAllowed k \<notin> set (warnings (GradientButton props))"
      unfolding w using validateTextStyle_warnings [of "getProp props ''textStyle''"] by auto
    from s0 s1 s2 show "attr t ''style'' = Some (Val (JObj [])) \<and>
            descend t (maskPath @ [''style'']) =
              Some (Val (JArr [styles_maskContainer, JObj []])) \<and>
            (\<forall>k. StyleNotAllowed k \<notin> set (warnings (GradientButton props)))"
      by blast
  qed
  from e r show ?thesis by blast
qed

theorem splitStyle_non_object_witness:
  "isArray (JArr [JObj sampleStyle]) \<and>
   splitStyle (JArr [JObj sampleStyle]) = \<lparr>outerStyle = [], innerStyle = [], warned = []\<rparr> \<and>
   splitStyle JNull = \<lparr>outerStyle = [], innerStyle = [], warned = []\<rparr> \<and>
   splitStyle (JNum 3) = \<lparr>outerStyle = [], innerStyle = [], warned = []\<rparr> \<and>
   getProp loadingProps ''style'' = JArr [JObj sampleStyle] \<and>
   result (GradientButton loadingProps) = Inr (render loadingProps JUndefined emptySplit) \<and>
   attr (render loadingProps JUndefined emptySplit) ''style'' = Some (Val (JObj [])) \<and>
   descend (render loadingProps JUndefined emptySplit) (maskPath @ [''style'']) =
     Some (Val (JArr [styles_maskContainer, JObj []])) \<and>
   warnings (GradientButton loadingProps) = []"
proof -
  have n: "isArray (JArr [JObj sampleStyle]) \<or> typeof (JArr [JObj sampleStyle]) \<noteq> ''object''
      \<or> JArr [JObj sampleStyle] = JNull"
    by simp
  have n1: "isArray JNull \<or> typeof JNull \<noteq> ''object'' \<or> JNull = JNull"
    by simp
  have n2: "isArray (JNum 3) \<or> typeof (JNum 3) \<noteq> ''object'' \<or> JNum 3 = JNull"
    by simp
  have st: "getProp loadingProps ''style'' = JArr [JObj sampleStyle]"
      "getProp loadingProps ''textStyle'' = JUndefined"
    by (simp_all add: loadingProps_def getProp_def)
  have w: "warnings (GradientButton loadingProps) = []"
    by (simp add: GradientButton_warnings [OF loading_result] st validateTextStyle_def
        splitStyle_def emptySplit_def)
  show ?thesis
    using splitStyle_non_object [OF n, of loadingProps "render loadingProps JUndefined emptySplit"]
      splitStyle_non_object [OF n1, of loadingProps "render loadingProps JUndefined emptySplit"]
      splitStyle_non_object [OF n2, of loadingProps "render loadingProps JUndefined emptySplit"]
      st loading_result w
    by simp
qed

text \<open>
  C9. When the call returns, the \<^verbatim>\<open>TouchableOpacity\<close> gets \<^verbatim>\<open>disabled\<close> equal to
  \<^verbatim>\<open>disabled || loading\<close>, which no other prop of the caller can override; it is truthy
  whenever \<^verbatim>\<open>loading\<close> is truthy, and it is \<^verbatim>\<open>true\<close> when \<^verbatim>\<open>loading\<close> is \<^verbatim>\<open>true\<close> and
  \<^verbatim>\<open>disabled\<close> is \<^verbatim>\<open>false\<close>.
\<close>

theorem touchable_disabled:
  assumes "result (GradientButton props) = Inr t"
  shows "componentAt t [''children''] = Some ''TouchableOpacity'' \<and>
         descend t [''children'', ''disabled''] =
           Some (Val (js_or (dflt (JBool False) (getProp props ''disabled''))
                            (dflt (JBool False) (getProp props ''loading'')))) \<and>
         (truthy (getProp props ''loading'') \<longrightarrow>
            truthy (js_or (dflt (JBool False) (getProp props ''disabled''))
                          (dflt (JBool False) (getProp props ''loading'')))) \<and>
         (getProp props ''loading'' = JBool True \<and> getProp props ''disabled'' = JBool False \<longrightarrow>
            descend t [''children'', ''disabled''] = Some (Val (JBool True)))"
proof -
  from assms obtain ts where t: "t = render props ts (splitStyle (getProp props ''style''))"
    by (rule GradientButton_tree)
  have d: "descend t [''children'', ''disabled''] =
           Some (Val (js_or (dflt (JBool False) (getProp props ''disabled''))
                            (dflt (JBool False) (getProp props ''loading''))))"
    by (simp add: t attr_render_children attr_touchable_disabled)
  have c: "componentAt t [''children''] = Some ''TouchableOpacity''"
    by (simp add: t componentAt_def attr_render_children component_touchable)
  have l: "truthy (getProp props ''loading'') \<longrightarrow>
            truthy (js_or (dflt (JBool False) (getProp props ''disabled''))
                          (dflt (JBool False) (getProp props ''loading'')))"
    by (simp add: js_or_def truthy_dflt_False)
  have e: "getProp props ''loading'' = JBool True \<and> getProp props ''disabled'' = JBool False \<longrightarrow>
            descend t [''children'', ''disabled''] = Some (Val (JBool True))"
    unfolding d by (simp add: js_or_def dflt_def)
  from c d l e show ?thesis by blast
qed

theorem touchable_disabled_witness:
  "result (GradientButton loadingProps) = Inr (render loadingProps JUndefined emptySplit) \<and>
   getProp loadingProps ''loading'' = JBool True \<and>
   getProp loadingProps ''disabled'' = JBool False \<and>
   descend (render loadingProps JUndefined emptySplit) [''children'', ''disabled''] =
     Some (Val (JBool True))"
proof -
  have l: "getProp loadingProps ''loading'' = JBool True"
      "getProp loadingProps ''disabled'' = JBool False"
    by (simp_all add: loadingProps_def getProp_def)
  show ?thesis
    using touchable_disabled [OF loading_result] loading_result l
    by (simp add: js_or_def dflt_def)
qed

text \<open>
  C10. When the call returns, the \<^verbatim>\<open>TouchableOpacity\<close> gets \<^verbatim>\<open>accessibilityLabel\<close> equal
  to \<^verbatim>\<open>accessibilityLabel || text\<close>, which is the text when the label prop is undefined or
  the empty string; and the text is truthy, so neither undefined nor the empty string.
\<close>

theorem accessibilityLabel_fallback:
  assumes "result (GradientButton props) = Inr t"
  shows "descend t [''children'', ''accessibilityLabel''] =
           Some (Val (js_or (getProp props ''accessibilityLabel'') (getProp props ''text''))) \<and>
         (getProp props ''accessibilityLabel'' = JUndefined \<or>
          getProp props ''accessibilityLabel'' = JStr [] \<longrightarrow>
            descend t [''children'', ''accessibilityLabel''] = Some (Val (getProp props ''text''))) \<and>
         truthy (getProp props ''text'') \<and>
         getProp props ''text'' \<noteq> JStr [] \<and> getProp props ''text'' \<noteq> JUndefined"
proof -
  from assms obtain ts where t: "t = render props ts (splitStyle (getProp props ''style''))"
    by (rule GradientButton_tree)
  have d: "descend t [''children'', ''accessibilityLabel''] =
           Some (Val (js_or (getProp props ''accessibilityLabel'') (getProp props ''text'')))"
    by (simp add: t attr_render_children attr_touchable_label)
  have f: "getProp props ''accessibilityLabel'' = JUndefined \<or>
          getProp props ''accessibilityLabel'' = JStr [] \<longrightarrow>
            descend t [''children'', ''accessibilityLabel''] = Some (Val (getProp props ''text''))"
    unfolding d by (auto simp: js_or_def)
  have v: "truthy (getProp props ''text'')"
    by (rule GradientButton_valid [OF assms])
  then have n: "getProp props ''text'' \<noteq> JStr [] \<and> getProp props ''text'' \<noteq> JUndefined"
    by auto
  from d f v n show ?thesis by blast
qed

theorem accessibilityLabel_fallback_witness:
  "result (GradientButton sampleProps) =
     Inr (render sampleProps (JObj [(''fontSize'', JNum 18)]) sampleSplit) \<and>
   getProp sampleProps ''accessibilityLabel'' = JUndefined \<and>
   descend (render sampleProps (JObj [(''fontSize'', JNum 18)]) sampleSplit)
       [''children'', ''accessibilityLabel''] = Some (Val (JStr ''Hi''))"
proof -
  have l: "getProp sampleProps ''accessibilityLabel'' = JUndefined"
      "getProp sampleProps ''text'' = JStr ''Hi''"
    by (simp_all add: sampleProps_def getProp_def)
  show ?thesis
    using accessibilityLabel_fallback [OF sample_result] sample_result l
    by (simp add: js_or_def)
qed

end
